theory Spec2Isabelle
  imports Main "HOL-Library.Sublist"
begin

section \<open>Messages (pkg/providers, as used by pkg/agent)\<close>

text \<open>
  Modelled from the spec: the declarations of \<open>protocoltypes.Message\<close>,
  \<open>ContentBlock\<close> and \<open>CacheControl\<close> are not among the sources; the fields
  below are the ones the agent package reads and writes (Role, Content, SystemParts,
  ToolCalls, ToolCallID; Type, Text, CacheControl), with Go's zero values (empty string,
  nil slice as the empty list, nil pointer as \<open>None\<close>) for fields a composite literal
  leaves out. The element type of ToolCalls is a type parameter.
\<close>

datatype CacheControl = Mk_CacheControl (CacheControl_Type: string)

record ContentBlock =
  Type :: string
  Text :: string
  CacheControl :: "CacheControl option"

record 'tc Message =
  Role :: string
  Content :: string
  SystemParts :: "ContentBlock list"
  ToolCalls :: "'tc list"
  ToolCallID :: string

section \<open>History sanitizer\<close>

text \<open>
  The backward scan of the tool case: \<open>for i := len(sanitized) - 1; i >= 0; i--\<close>.
  \<open>scanBack sanitized n\<close> runs the loop from index \<open>n - 1\<close> down and returns
  \<open>foundAssistant\<close>.
\<close>

fun scanBack :: "'tc Message list \<Rightarrow> nat \<Rightarrow> bool" where
  "scanBack sanitized 0 = False"
| "scanBack sanitized (Suc i) =
     (if Role (sanitized ! i) = ''tool'' then scanBack sanitized i
      else (Role (sanitized ! i) = ''assistant'' \<and> length (ToolCalls (sanitized ! i)) > 0))"

text \<open>One iteration of the loop over \<open>history\<close>: the switch on \<open>msg.Role\<close>.\<close>

definition sanitizeStep :: "'tc Message list \<Rightarrow> 'tc Message \<Rightarrow> 'tc Message list" where
  "sanitizeStep sanitized msg =
     (if Role msg = ''system'' then sanitized
      else if Role msg = ''tool'' then
        (if length sanitized = 0 then sanitized
         else if \<not> scanBack sanitized (length sanitized) then sanitized
         else sanitized @ [msg])
      else if Role msg = ''assistant'' then
        (if length (ToolCalls msg) > 0 then
           (if length sanitized = 0 then sanitized
            else (let prev = sanitized ! (length sanitized - 1)
                  in if Role prev \<noteq> ''user'' \<and> Role prev \<noteq> ''tool'' then sanitized
                     else sanitized @ [msg]))
         else sanitized @ [msg])
      else sanitized @ [msg])"

fun sanitizeLoop :: "'tc Message list \<Rightarrow> 'tc Message list \<Rightarrow> 'tc Message list" where
  "sanitizeLoop sanitized [] = sanitized"
| "sanitizeLoop sanitized (msg # rest) = sanitizeLoop (sanitizeStep sanitized msg) rest"

definition sanitizeHistoryForProvider :: "'tc Message list \<Rightarrow> 'tc Message list" where
  "sanitizeHistoryForProvider history =
     (if length history = 0 then history else sanitizeLoop [] history)"

text \<open>
  The rules of the sanitizer as the specification words them, for comparison with the
  loop above: \<open>spec_keeps acc m\<close> says whether message \<open>m\<close> is kept when the output
  accumulator is \<open>acc\<close>.
\<close>

definition spec_tool_anchor :: "'tc Message list \<Rightarrow> bool" where
  "spec_tool_anchor acc =
     (case dropWhile (\<lambda>x. Role x = ''tool'') (rev acc) of
        [] \<Rightarrow> False
      | x # _ \<Rightarrow> Role x = ''assistant'' \<and> ToolCalls x \<noteq> [])"

definition spec_keeps :: "'tc Message list \<Rightarrow> 'tc Message \<Rightarrow> bool" where
  "spec_keeps acc m =
     (if Role m = ''system'' then False
      else if Role m = ''tool'' then (if acc = [] then False else spec_tool_anchor acc)
      else if Role m = ''assistant'' \<and> ToolCalls m \<noteq> [] then
        (if acc = [] then False
         else if Role (last acc) \<noteq> ''user'' \<and> Role (last acc) \<noteq> ''tool'' then False
         else True)
      else True)"

definition spec_sanitize :: "'tc Message list \<Rightarrow> 'tc Message list" where
  "spec_sanitize history =
     foldl (\<lambda>acc m. if spec_keeps acc m then acc @ [m] else acc) [] history"

section \<open>Appending to a message list\<close>

text \<open>
  \<open>AddAssistantMessage(messages, content, toolCalls)\<close>; the element type of
  \<open>toolCalls\<close> (\<open>map[string]any\<close> in the source) is a type parameter.
\<close>

definition AddAssistantMessage ::
  "'tc Message list \<Rightarrow> string \<Rightarrow> 'a list \<Rightarrow> 'tc Message list" where
  "AddAssistantMessage messages content toolCalls =
     (let msg = \<lparr>Role = ''assistant'', Content = content, SystemParts = [],
                 ToolCalls = [], ToolCallID = ''''\<rparr>
      in messages @ [msg])"

definition AddToolResult ::
  "'tc Message list \<Rightarrow> string \<Rightarrow> string \<Rightarrow> string \<Rightarrow> 'tc Message list" where
  "AddToolResult messages toolCallID toolName result =
     messages @ [\<lparr>Role = ''tool'', Content = result, SystemParts = [],
                  ToolCalls = [], ToolCallID = toolCallID\<rparr>]"

section \<open>Time, paths and the file system\<close>

text \<open>
  A \<open>time.Time\<close> is the number of nanoseconds since Go's zero instant (January 1,
  year 1, 00:00:00 UTC); the zero value \<open>time.Time{}\<close> is 0 and \<open>time.Unix(sec, nsec)\<close>
  lies 62135596800 seconds after it. File times carry no monotonic reading, so
  \<open>After\<close> compares instants.
\<close>

type_synonym Time = int

definition zeroTime :: Time where
  "zeroTime = 0"

definition IsZero :: "Time \<Rightarrow> bool" where
  "IsZero t = (t = zeroTime)"

definition After :: "Time \<Rightarrow> Time \<Rightarrow> bool" where
  "After t u = (u < t)"

definition Unix :: "int \<Rightarrow> int \<Rightarrow> Time" where
  "Unix sec nsec = (sec + 62135596800) * 1000000000 + nsec"

text \<open>
  \<open>filepath.Join\<close>: the non-empty elements joined by the separator. Its final
  \<open>Clean\<close> is not modelled (the paths of this development are clean already).
\<close>

fun filepath_Join :: "string list \<Rightarrow> string" where
  "filepath_Join [] = []"
| "filepath_Join (e # es) =
     (if e = [] then filepath_Join es
      else if filepath_Join es = [] then e
      else e @ ''/'' @ filepath_Join es)"

declare filepath_Join.simps [simp del]

datatype error = ErrNotExist | ErrWalkStop | SkipDir | SkipAll | ErrOther string

definition IsNotExist :: "error \<Rightarrow> bool" where
  "IsNotExist e = (e = ErrNotExist)"

record FileInfo =
  ModTime :: Time

datatype DirEntry = DirEntry (entry_Name: string) (entry_IsDir: bool)

text \<open>
  What \<open>filepath.WalkDir\<close> finds below a root: an entry with its name and
  \<open>d.IsDir()\<close> and, for a directory, the result of \<open>os.ReadDir\<close> on it (the entries
  read, sorted by name, and the error if any).
\<close>

datatype DirTree = DirTree string bool "error option" "DirTree list"

fun tree_Name :: "DirTree \<Rightarrow> string" where
  "tree_Name (DirTree nm isd rerr ents) = nm"

datatype SkillMetadata = SkillMetadata (meta_Name: string) (meta_Description: string)

text \<open>
  The environment a call runs in. \<open>stat\<close>, \<open>readFile\<close> and \<open>readDir\<close> are
  \<open>os.Stat\<close>, \<open>os.ReadFile\<close> and \<open>os.ReadDir\<close> (\<open>None\<close> when \<open>err != nil\<close>);
  \<open>lstatTree root\<close> is \<open>os.Lstat(root)\<close> together with the directory tree below it as
  \<open>filepath.WalkDir\<close> reads it; \<open>Abs\<close> is \<open>filepath.Abs\<close>.

  \<open>skillMetadata p\<close> is the result of \<open>getSkillMetadata(p)\<close>, which reads the file and
  parses its frontmatter with \<open>regexp\<close> and \<open>encoding/json\<close>; \<open>None\<close> is nil. The
  properties below hold whatever it returns.
\<close>

text \<open>
  Modelled from the spec: \<open>MemoryStore.GetMemoryContext\<close> is not among the sources;
  the field \<open>memoryContext\<close> is its result, "freeform text or empty string when no
  memory exists".
\<close>

record FS =
  stat :: "string \<Rightarrow> FileInfo option"
  lstatTree :: "string \<Rightarrow> error + DirTree"
  readFile :: "string \<Rightarrow> string option"
  readDir :: "string \<Rightarrow> DirEntry list option"
  skillMetadata :: "string \<Rightarrow> SkillMetadata option"
  memoryContext :: string
  Abs :: "string \<Rightarrow> string"

subsection \<open>filepath.WalkDir\<close>

text \<open>
  The callback receives the path, \<open>d.IsDir()\<close> (\<open>None\<close> when \<open>d\<close> is nil), the
  error passed in, and the variables it closes over; it returns its error and those
  variables.
\<close>

type_synonym 's WalkDirFunc =
  "string \<Rightarrow> bool option \<Rightarrow> error option \<Rightarrow> 's \<Rightarrow> error option \<times> 's"

fun walkDir :: "string \<Rightarrow> DirTree \<Rightarrow> 's WalkDirFunc \<Rightarrow> 's \<Rightarrow> error option \<times> 's"
and walkDirs :: "string \<Rightarrow> DirTree list \<Rightarrow> 's WalkDirFunc \<Rightarrow> 's \<Rightarrow> error option \<times> 's"
where
  "walkDir path (DirTree nm isd rerr ents) fn s =
     (case fn path (Some isd) None s of
        (Some err, s1) \<Rightarrow> (if err = SkipDir \<and> isd then (None, s1) else (Some err, s1))
      | (None, s1) \<Rightarrow>
          (if \<not> isd then (None, s1)
           else (case rerr of
                   None \<Rightarrow> walkDirs path ents fn s1
                 | Some e \<Rightarrow>
                     (case fn path (Some isd) (Some e) s1 of
                        (Some err, s2) \<Rightarrow>
                          (if err = SkipDir \<and> isd then (None, s2) else (Some err, s2))
                      | (None, s2) \<Rightarrow> walkDirs path ents fn s2))))"
| "walkDirs path [] fn s = (None, s)"
| "walkDirs path (d1 # ds) fn s =
     (case walkDir (filepath_Join [path, tree_Name d1]) d1 fn s of
        (Some err, s1) \<Rightarrow> (if err = SkipDir then (None, s1) else (Some err, s1))
      | (None, s1) \<Rightarrow> walkDirs path ds fn s1)"

definition WalkDir :: "FS \<Rightarrow> string \<Rightarrow> 's WalkDirFunc \<Rightarrow> 's \<Rightarrow> error option \<times> 's" where
  "WalkDir fs root fn s =
     (case (case lstatTree fs root of
              Inl e \<Rightarrow> fn root None (Some e) s
            | Inr info \<Rightarrow> walkDir root info fn s) of
        (err, s') \<Rightarrow>
          (if err = Some SkipDir \<or> err = Some SkipAll then (None, s') else (err, s')))"

section \<open>The prompt cache\<close>

record ContextBuilder =
  workspace :: string
  workspaceSkills :: string
  globalSkills :: string
  builtinSkills :: string
  cachedSystemPrompt :: string
  cachedAt :: Time
  existedAtCache :: "(string \<rightharpoonup> bool) option"

text \<open>
  \<open>NewContextBuilder(workspace)\<close>; \<open>wd\<close> is the result of \<open>os.Getwd()\<close> and
  \<open>globalConfigDir\<close> that of \<open>getGlobalConfigDir()\<close>.
\<close>

definition NewContextBuilder :: "string \<Rightarrow> string \<Rightarrow> string \<Rightarrow> ContextBuilder" where
  "NewContextBuilder wd globalConfigDir ws =
     \<lparr>workspace = ws,
      workspaceSkills = filepath_Join [ws, ''skills''],
      globalSkills = filepath_Join [globalConfigDir, ''skills''],
      builtinSkills = filepath_Join [wd, ''skills''],
      cachedSystemPrompt = '''',
      cachedAt = zeroTime,
      existedAtCache = None\<rparr>"

text \<open>Reading a \<open>map[string]bool\<close>: a missing key reads as \<open>false\<close>.\<close>

definition lookupBool :: "(string \<rightharpoonup> bool) \<Rightarrow> string \<Rightarrow> bool" where
  "lookupBool m k = (case m k of None \<Rightarrow> False | Some b \<Rightarrow> b)"

definition sourcePaths :: "ContextBuilder \<Rightarrow> string list" where
  "sourcePaths cb =
     [filepath_Join [workspace cb, ''AGENTS.md''],
      filepath_Join [workspace cb, ''SOUL.md''],
      filepath_Join [workspace cb, ''USER.md''],
      filepath_Join [workspace cb, ''IDENTITY.md''],
      filepath_Join [workspace cb, ''memory'', ''MEMORY.md'']]"

record cacheBaseline =
  existed :: "string \<rightharpoonup> bool"
  maxMtime :: Time

subsection \<open>Baseline snapshot\<close>

text \<open>The loop over \<open>allPaths\<close>, on the variables \<open>existed\<close> (here \<open>ex\<close>) and
  \<open>maxMtime\<close> (here \<open>mt\<close>).\<close>

fun baselineLoop ::
  "FS \<Rightarrow> string list \<Rightarrow> (string \<rightharpoonup> bool) \<times> Time \<Rightarrow> (string \<rightharpoonup> bool) \<times> Time" where
  "baselineLoop fs [] st = st"
| "baselineLoop fs (p # ps) (ex, mt) =
     (case stat fs p of
        None \<Rightarrow> baselineLoop fs ps (ex(p \<mapsto> False), mt)
      | Some info \<Rightarrow>
          baselineLoop fs ps
            (ex(p \<mapsto> True), if After (ModTime info) mt then ModTime info else mt))"

text \<open>
  The callback of the walk in \<open>buildCacheBaseline\<close>; it closes over \<open>maxMtime\<close> (here \<open>mt\<close>).
  \<open>d.IsDir()\<close> is read only when \<open>walkErr == nil\<close>, and then \<open>d\<close> is not nil.
\<close>

definition baselineFn :: "FS \<Rightarrow> Time WalkDirFunc" where
  "baselineFn fs path d walkErr mt =
     (if walkErr = None \<and> d = Some False then
        (case stat fs path of
           Some info \<Rightarrow>
             (if After (ModTime info) mt then (None, ModTime info) else (None, mt))
         | None \<Rightarrow> (None, mt))
      else (None, mt))"

definition buildCacheBaseline :: "FS \<Rightarrow> ContextBuilder \<Rightarrow> cacheBaseline" where
  "buildCacheBaseline fs cb =
     (let skillsDir = filepath_Join [workspace cb, ''skills''];
          allPaths = sourcePaths cb @ [skillsDir];
          (ex, mt1) = baselineLoop fs allPaths (Map.empty, zeroTime);
          mt2 = snd (WalkDir fs skillsDir (baselineFn fs) mt1);
          mt3 = (if IsZero mt2 then Unix 1 0 else mt2)
      in \<lparr>existed = ex, maxMtime = mt3\<rparr>)"

subsection \<open>Staleness detector\<close>

text \<open>
  The detector is modelled together with the sequence of events it causes, in order:
  each \<open>os.Stat\<close> it issues and each line it logs. The specification fixes the order of
  its checks, and the order shows in this sequence.
\<close>

datatype event = EvStat string | EvLog string

definition fileChangedSince :: "FS \<Rightarrow> ContextBuilder \<Rightarrow> string \<Rightarrow> bool \<times> event list" where
  "fileChangedSince fs cb path =
     (case existedAtCache cb of
        None \<Rightarrow> (True, [])
      | Some m \<Rightarrow>
          (let existedBefore = lookupBool m path;
               r = stat fs path;
               existsNow = (r \<noteq> None)
           in if existedBefore \<noteq> existsNow then (True, [EvStat path])
              else (case r of
                      None \<Rightarrow> (False, [EvStat path])
                    | Some info \<Rightarrow> (After (ModTime info) (cachedAt cb), [EvStat path]))))"

text \<open>
  The callback of the walk in \<open>skillFilesModifiedSince\<close>; it closes over \<open>changed\<close>
  (and, here, the events so far).
\<close>

definition modifiedFn :: "FS \<Rightarrow> Time \<Rightarrow> (bool \<times> event list) WalkDirFunc" where
  "modifiedFn fs t path d walkErr s =
     (if walkErr = None \<and> d = Some False then
        (case stat fs path of
           Some info \<Rightarrow>
             (if After (ModTime info) t then (Some ErrWalkStop, (True, snd s @ [EvStat path]))
              else (None, (fst s, snd s @ [EvStat path])))
         | None \<Rightarrow> (None, (fst s, snd s @ [EvStat path])))
      else (None, s))"

definition skillFilesModifiedSince :: "FS \<Rightarrow> string \<Rightarrow> Time \<Rightarrow> bool \<times> event list" where
  "skillFilesModifiedSince fs skillsDir t =
     (case WalkDir fs skillsDir (modifiedFn fs t) (False, []) of
        (err, (changed, evs)) \<Rightarrow>
          (case err of
             None \<Rightarrow> (changed, evs)
           | Some e \<Rightarrow>
               (if e \<noteq> ErrWalkStop \<and> \<not> IsNotExist e
                then (changed, evs @ [EvLog ''skills walk error''])
                else (changed, evs))))"

text \<open>The loop over \<open>cb.sourcePaths()\<close>: it returns at the first changed path.\<close>

fun sourcePathsLoop :: "FS \<Rightarrow> ContextBuilder \<Rightarrow> string list \<Rightarrow> bool \<times> event list" where
  "sourcePathsLoop fs cb [] = (False, [])"
| "sourcePathsLoop fs cb (p # ps) =
     (case fileChangedSince fs cb p of
        (True, evs) \<Rightarrow> (True, evs)
      | (False, evs) \<Rightarrow>
          (case sourcePathsLoop fs cb ps of (r, evs') \<Rightarrow> (r, evs @ evs')))"

definition sourceFilesChangedLocked :: "FS \<Rightarrow> ContextBuilder \<Rightarrow> bool \<times> event list" where
  "sourceFilesChangedLocked fs cb =
     (if IsZero (cachedAt cb) then (True, [])
      else (case sourcePathsLoop fs cb (sourcePaths cb) of
              (True, evs1) \<Rightarrow> (True, evs1)
            | (False, evs1) \<Rightarrow>
                (let skillsDir = filepath_Join [workspace cb, ''skills'']
                 in case fileChangedSince fs cb skillsDir of
                      (True, evs2) \<Rightarrow> (True, evs1 @ evs2)
                    | (False, evs2) \<Rightarrow>
                        (case skillFilesModifiedSince fs skillsDir (cachedAt cb) of
                           (True, evs3) \<Rightarrow> (True, evs1 @ evs2 @ evs3)
                         | (False, evs3) \<Rightarrow> (False, evs1 @ evs2 @ evs3)))))"

section \<open>Skills loader (pkg/skills/loader.go)\<close>

record SkillInfo =
  Name :: string
  Path :: string
  Source :: string
  Description :: string

definition MaxNameLength :: nat where
  "MaxNameLength = 64"

definition MaxDescriptionLength :: nat where
  "MaxDescriptionLength = 1024"

text \<open>
  \<open>namePattern.MatchString\<close> for the pattern \<open>^[a-zA-Z0-9]+(-[a-zA-Z0-9]+)*$\<close>, as
  the automaton of that expression: \<open>nameStart\<close> expects the first character of a
  group, \<open>nameRest\<close> is inside a group. Without the \<open>m\<close> flag \<open>$\<close> matches at the end
  of the text only.
\<close>

definition isAlnum :: "char \<Rightarrow> bool" where
  "isAlnum c =
     (let n = (of_char c :: nat)
      in (97 \<le> n \<and> n \<le> 122) \<or> (65 \<le> n \<and> n \<le> 90) \<or> (48 \<le> n \<and> n \<le> 57))"

fun nameStart :: "string \<Rightarrow> bool" and nameRest :: "string \<Rightarrow> bool" where
  "nameStart [] = False"
| "nameStart (c # cs) = (isAlnum c \<and> nameRest cs)"
| "nameRest [] = True"
| "nameRest (c # cs) = (if isAlnum c then nameRest cs else (c = CHR ''-'' \<and> nameStart cs))"

definition namePattern_MatchString :: "string \<Rightarrow> bool" where
  "namePattern_MatchString s = nameStart s"

text \<open>
  \<open>validate\<close> returns the joined errors as the list of their messages; the empty list
  is the nil error. \<open>len\<close> counts bytes, as \<open>length\<close> does on a \<open>string\<close>.
\<close>

definition validate :: "SkillInfo \<Rightarrow> string list" where
  "validate info =
     (if Name info = '''' then [''name is required'']
      else (if length (Name info) > MaxNameLength then [''name exceeds 64 characters''] else [])
           @ (if \<not> namePattern_MatchString (Name info)
              then [''name must be alphanumeric with hyphens''] else []))
     @ (if Description info = '''' then [''description is required'']
        else if length (Description info) > MaxDescriptionLength
             then [''description exceeds 1024 character'']
        else [])"

text \<open>A line written by \<open>slog.Warn\<close>: the message, the name and the error.\<close>

datatype warning = Warning string string "string list"

text \<open>
  The variables \<open>ListSkills\<close> and its closure \<open>addSkills\<close> share: \<open>skills\<close>,
  \<open>seen\<close> and, here, the warnings logged so far.
\<close>

record ListState =
  skills :: "SkillInfo list"
  seen :: "string \<rightharpoonup> bool"
  warnings :: "warning list"

text \<open>The body of the loop over the directory entries, for one entry \<open>d\<close>.\<close>

definition addSkill :: "FS \<Rightarrow> string \<Rightarrow> string \<Rightarrow> DirEntry \<Rightarrow> ListState \<Rightarrow> ListState" where
  "addSkill fs dir source d st =
     (if \<not> entry_IsDir d then st
      else (let skillFile = filepath_Join [dir, entry_Name d, ''SKILL.md'']
            in if stat fs skillFile = None then st
               else (let info0 = \<lparr>Name = entry_Name d, Path = skillFile, Source = source,
                                   Description = ''''\<rparr>;
                         info = (case skillMetadata fs skillFile of
                                   None \<Rightarrow> info0
                                 | Some metadata \<Rightarrow>
                                     info0\<lparr>Description := meta_Description metadata,
                                            Name := meta_Name metadata\<rparr>)
                     in if validate info \<noteq> [] then
                          st\<lparr>warnings := warnings st
                                @ [Warning (''invalid skill from '' @ source) (Name info)
                                     (validate info)]\<rparr>
                        else if lookupBool (seen st) (Name info) then st
                        else st\<lparr>seen := (seen st)(Name info \<mapsto> True),
                                 skills := skills st @ [info]\<rparr>)))"

fun addSkillsLoop :: "FS \<Rightarrow> string \<Rightarrow> string \<Rightarrow> DirEntry list \<Rightarrow> ListState \<Rightarrow> ListState" where
  "addSkillsLoop fs dir source [] st = st"
| "addSkillsLoop fs dir source (d # ds) st =
     addSkillsLoop fs dir source ds (addSkill fs dir source d st)"

definition addSkills :: "FS \<Rightarrow> string \<Rightarrow> string \<Rightarrow> ListState \<Rightarrow> ListState" where
  "addSkills fs dir source st =
     (if dir = '''' then st
      else (case readDir fs dir of
              None \<Rightarrow> st
            | Some dirs \<Rightarrow> addSkillsLoop fs dir source dirs st))"

definition ListSkillsState :: "FS \<Rightarrow> ContextBuilder \<Rightarrow> ListState" where
  "ListSkillsState fs cb =
     addSkills fs (builtinSkills cb) ''builtin''
       (addSkills fs (globalSkills cb) ''global''
          (addSkills fs (workspaceSkills cb) ''workspace''
             \<lparr>skills = [], seen = Map.empty, warnings = []\<rparr>))"

text \<open>
  \<open>ListSkills\<close> returns the list; it has no error result. The fields of the
  \<open>SkillsLoader\<close> are kept in the \<open>ContextBuilder\<close> record.
\<close>

definition ListSkills :: "FS \<Rightarrow> ContextBuilder \<Rightarrow> SkillInfo list" where
  "ListSkills fs cb = skills (ListSkillsState fs cb)"

definition ListSkillsWarnings :: "FS \<Rightarrow> ContextBuilder \<Rightarrow> warning list" where
  "ListSkillsWarnings fs cb = warnings (ListSkillsState fs cb)"

fun strings_Join :: "string list \<Rightarrow> string \<Rightarrow> string" where
  "strings_Join [] sep = []"
| "strings_Join [x] sep = x"
| "strings_Join (x # y # ys) sep = x @ sep @ strings_Join (y # ys) sep"

text \<open>\<open>strings.ReplaceAll\<close> for a pattern of one byte.\<close>

definition ReplaceAll1 :: "string \<Rightarrow> char \<Rightarrow> string \<Rightarrow> string" where
  "ReplaceAll1 s old new = concat (map (\<lambda>c. if c = old then new else [c]) s)"

definition escapeXML :: "string \<Rightarrow> string" where
  "escapeXML s =
     ReplaceAll1 (ReplaceAll1 (ReplaceAll1 s (CHR ''&'') ''&amp;'') (CHR ''<'') ''&lt;'')
       (CHR ''>'') ''&gt;''"

definition skillLines :: "SkillInfo \<Rightarrow> string list" where
  "skillLines s =
     [''  <skill>'',
      ''    <name>'' @ escapeXML (Name s) @ ''</name>'',
      ''    <description>'' @ escapeXML (Description s) @ ''</description>'',
      ''    <location>'' @ escapeXML (Path s) @ ''</location>'',
      ''    <source>'' @ Source s @ ''</source>'',
      ''  </skill>'']"

definition BuildSkillsSummary :: "FS \<Rightarrow> ContextBuilder \<Rightarrow> string" where
  "BuildSkillsSummary fs cb =
     (let allSkills = ListSkills fs cb
      in if length allSkills = 0 then ''''
         else strings_Join ([''<skills>''] @ concat (map skillLines allSkills) @ [''</skills>''])
                ''\<newline>'')"

section \<open>Prompt assembler\<close>

definition getIdentity :: "FS \<Rightarrow> ContextBuilder \<Rightarrow> string" where
  "getIdentity fs cb =
     (let workspacePath = Abs fs (filepath_Join [workspace cb])
      in
        ''# picoclaw '' @
        [CHR 0xF0, CHR 0x9F, CHR 0xA6, CHR 0x9E] @
        ''\<newline>\<newline>You are picoclaw, a helpful AI assistant.\<newline>\<newline>## Workspace\<newline>Your workspace is at: '' @
        workspacePath @
        ''\<newline>- Memory: '' @
        workspacePath @
        ''/memory/MEMORY.md\<newline>- Daily Notes: '' @
        workspacePath @
        ''/memory/YYYYMM/YYYYMMDD.md\<newline>- Skills: '' @
        workspacePath @
        ''/skills/{skill-name}/SKILL.md\<newline>\<newline>## Important Rules\<newline>\<newline>1. **ALWAYS use tools** - When you need to perform an action (schedule reminders, send messages, execute commands, etc.), you MUST call the appropriate tool. Do NOT just say you'' @
        [CHR 0x27] @
        ''ll do it or pretend to do it.\<newline>\<newline>2. **Be helpful and accurate** - When using tools, briefly explain what you'' @
        [CHR 0x27] @
        ''re doing.\<newline>\<newline>3. **Memory** - When interacting with me if something seems memorable, update '' @
        workspacePath @
        ''/memory/MEMORY.md\<newline>\<newline>4. **Context summaries** - Conversation summaries provided as context are approximate references only. They may be incomplete or outdated. Always defer to explicit user instructions over summary content.'')"

fun bootstrapLoop :: "FS \<Rightarrow> ContextBuilder \<Rightarrow> string list \<Rightarrow> string \<Rightarrow> string" where
  "bootstrapLoop fs cb [] sb = sb"
| "bootstrapLoop fs cb (filename # rest) sb =
     (case readFile fs (filepath_Join [workspace cb, filename]) of
        Some data \<Rightarrow>
          bootstrapLoop fs cb rest
            (sb @ ''## '' @ filename @ ''\<newline>\<newline>'' @ data @ ''\<newline>\<newline>'')
      | None \<Rightarrow> bootstrapLoop fs cb rest sb)"

definition LoadBootstrapFiles :: "FS \<Rightarrow> ContextBuilder \<Rightarrow> string" where
  "LoadBootstrapFiles fs cb =
     bootstrapLoop fs cb [''AGENTS.md'', ''SOUL.md'', ''USER.md'', ''IDENTITY.md''] ''''"

definition promptSeparator :: string where
  "promptSeparator = ''\<newline>\<newline>---\<newline>\<newline>''"

text \<open>The slice \<open>parts\<close> of \<open>BuildSystemPrompt\<close> when it is joined.\<close>

definition promptParts :: "FS \<Rightarrow> ContextBuilder \<Rightarrow> string list" where
  "promptParts fs cb =
     (let parts0 = [getIdentity fs cb];
          bootstrapContent = LoadBootstrapFiles fs cb;
          parts1 = (if bootstrapContent \<noteq> '''' then parts0 @ [bootstrapContent] else parts0);
          skillsSummary = BuildSkillsSummary fs cb;
          parts2 = (if skillsSummary \<noteq> '''' then
                      parts1 @ [
          ''# Skills\<newline>\<newline>The following skills extend your capabilities. To use a skill, read its SKILL.md file using the read_file tool.\<newline>\<newline>''
                        @ skillsSummary]
                    else parts1);
          parts3 = (if memoryContext fs \<noteq> '''' then
                      parts2 @ [''# Memory\<newline>\<newline>'' @ memoryContext fs]
                    else parts2)
      in parts3)"

definition BuildSystemPrompt :: "FS \<Rightarrow> ContextBuilder \<Rightarrow> string" where
  "BuildSystemPrompt fs cb = strings_Join (promptParts fs cb) promptSeparator"

section \<open>Cache controller\<close>

text \<open>
  The calls are modelled one at a time (no other goroutine runs between the read-locked
  check and the write-locked one), so the double check sees the state the first check
  saw. The debug lines of the logger are not modelled. A map made by \<open>make\<close> is not nil.
\<close>

definition BuildSystemPromptWithCache :: "FS \<Rightarrow> ContextBuilder \<Rightarrow> string \<times> ContextBuilder" where
  "BuildSystemPromptWithCache fs cb =
     (if cachedSystemPrompt cb \<noteq> '''' \<and> \<not> fst (sourceFilesChangedLocked fs cb)
      then (cachedSystemPrompt cb, cb)
      else if cachedSystemPrompt cb \<noteq> '''' \<and> \<not> fst (sourceFilesChangedLocked fs cb)
      then (cachedSystemPrompt cb, cb)
      else (let baseline = buildCacheBaseline fs cb;
                prompt = BuildSystemPrompt fs cb
            in (prompt,
                cb\<lparr>cachedSystemPrompt := prompt,
                   cachedAt := maxMtime baseline,
                   existedAtCache := Some (existed baseline)\<rparr>)))"

definition InvalidateCache :: "ContextBuilder \<Rightarrow> ContextBuilder" where
  "InvalidateCache cb =
     cb\<lparr>cachedSystemPrompt := '''', cachedAt := zeroTime, existedAtCache := None\<rparr>"

section \<open>Message composer\<close>

text \<open>
  What \<open>buildDynamicContext\<close> reads from the clock and the runtime: \<open>now\<close> is
  \<open>time.Now().Format("2006-01-02 15:04 (Monday)")\<close>; \<open>GOOS\<close>, \<open>GOARCH\<close> and
  \<open>Version\<close> are \<open>runtime.GOOS\<close>, \<open>runtime.GOARCH\<close> and \<open>runtime.Version()\<close>.
\<close>

record Runtime =
  now :: string
  GOOS :: string
  GOARCH :: string
  Version :: string

definition buildDynamicContext :: "Runtime \<Rightarrow> string \<Rightarrow> string \<Rightarrow> string" where
  "buildDynamicContext r channel chatID =
     (let rt = GOOS r @ '' '' @ GOARCH r @ '', Go '' @ Version r;
          sb = ''## Current Time\<newline>'' @ now r @ ''\<newline>\<newline>## Runtime\<newline>'' @ rt
      in if channel \<noteq> '''' \<and> chatID \<noteq> '''' then
           sb @ ''\<newline>\<newline>## Current Session\<newline>Channel: '' @ channel
              @ ''\<newline>Chat ID: '' @ chatID
         else sb)"

text \<open>
  \<open>strings.TrimSpace\<close> removes the leading and trailing runes for which
  \<open>unicode.IsSpace\<close> holds. On the bytes of the string these are the UTF-8 encodings
  below (tab, line feed, vertical tab, form feed, carriage return, space, U+0085, U+00A0,
  U+1680, U+2000 to U+200A, U+2028, U+2029, U+202F, U+205F, U+3000); a byte sequence that
  does not decode to one of them stops the trimming.
\<close>

definition spaceSeqs :: "string list" where
  "spaceSeqs =
     [[CHR 0x09], [CHR 0x0A], [CHR 0x0B], [CHR 0x0C], [CHR 0x0D], [CHR 0x20],
      [CHR 0xC2, CHR 0x85], [CHR 0xC2, CHR 0xA0],
      [CHR 0xE1, CHR 0x9A, CHR 0x80],
      [CHR 0xE2, CHR 0x80, CHR 0x80], [CHR 0xE2, CHR 0x80, CHR 0x81],
      [CHR 0xE2, CHR 0x80, CHR 0x82], [CHR 0xE2, CHR 0x80, CHR 0x83],
      [CHR 0xE2, CHR 0x80, CHR 0x84], [CHR 0xE2, CHR 0x80, CHR 0x85],
      [CHR 0xE2, CHR 0x80, CHR 0x86], [CHR 0xE2, CHR 0x80, CHR 0x87],
      [CHR 0xE2, CHR 0x80, CHR 0x88], [CHR 0xE2, CHR 0x80, CHR 0x89],
      [CHR 0xE2, CHR 0x80, CHR 0x8A],
      [CHR 0xE2, CHR 0x80, CHR 0xA8], [CHR 0xE2, CHR 0x80, CHR 0xA9],
      [CHR 0xE2, CHR 0x80, CHR 0xAF],
      [CHR 0xE2, CHR 0x81, CHR 0x9F],
      [CHR 0xE3, CHR 0x80, CHR 0x80]]"

text \<open>\<open>trimSeqs qs s\<close> removes from the front of \<open>s\<close> sequences of \<open>qs\<close> while one fits.\<close>

function trimSeqs :: "string list \<Rightarrow> string \<Rightarrow> string" where
  "trimSeqs qs s =
     (case find (\<lambda>q. q \<noteq> [] \<and> prefix q s) qs of
        None \<Rightarrow> s
      | Some q \<Rightarrow> trimSeqs qs (drop (length q) s))"
  by pat_completeness auto
termination
proof (relation "measure (\<lambda>(qs, s). length s)")
  show "wf (measure (\<lambda>(qs, s). length s))" by simp
next
  fix qs :: "string list" and s q :: string
  assume "find (\<lambda>q. q \<noteq> [] \<and> prefix q s) qs = Some q"
  then have "q \<noteq> []" and "prefix q s"
    by (auto simp: find_Some_iff)
  then have "0 < length q" and "length q \<le> length s"
    by (auto simp: prefix_def)
  then have "length s - length q < length s"
    by arith
  then show "((qs, drop (length q) s), (qs, s)) \<in> measure (\<lambda>(qs, s). length s)"
    by simp
qed

declare trimSeqs.simps [simp del]

definition TrimSpace :: "string \<Rightarrow> string" where
  "TrimSpace s = rev (trimSeqs (map rev spaceSeqs) (rev (trimSeqs spaceSeqs s)))"

definition summaryPrefix :: string where
  "summaryPrefix =
               ''CONTEXT_SUMMARY: The following is an approximate summary of prior conversation for reference only. It may be incomplete or outdated '' @
               [CHR 0xE2, CHR 0x80, CHR 0x94] @
               '' always defer to explicit instructions.\<newline>\<newline>''"

text \<open>
  \<open>BuildMessages\<close> returns the message list; the \<open>ContextBuilder\<close> it leaves behind
  (the cache may have been rebuilt) is the second component. \<open>media\<close> is not read.
\<close>

definition BuildMessages ::
  "FS \<Rightarrow> Runtime \<Rightarrow> ContextBuilder \<Rightarrow> 'tc Message list \<Rightarrow> string \<Rightarrow> string \<Rightarrow> string list
     \<Rightarrow> string \<Rightarrow> string \<Rightarrow> 'tc Message list \<times> ContextBuilder" where
  "BuildMessages fs r cb history summary currentMessage media channel chatID =
     (case BuildSystemPromptWithCache fs cb of
        (staticPrompt, cb') \<Rightarrow>
          (let dynamicCtx = buildDynamicContext r channel chatID;
               stringParts0 = [staticPrompt, dynamicCtx];
               contentBlocks0 =
                 [\<lparr>Type = ''text'', Text = staticPrompt,
                   CacheControl = Some (Mk_CacheControl ''ephemeral'')\<rparr>,
                  \<lparr>Type = ''text'', Text = dynamicCtx, CacheControl = None\<rparr>];
               summaryText = summaryPrefix @ summary;
               stringParts =
                 (if summary \<noteq> '''' then stringParts0 @ [summaryText] else stringParts0);
               contentBlocks =
                 (if summary \<noteq> '''' then
                    contentBlocks0 @ [\<lparr>Type = ''text'', Text = summaryText, CacheControl = None\<rparr>]
                  else contentBlocks0);
               fullSystemPrompt = strings_Join stringParts promptSeparator;
               history' = sanitizeHistoryForProvider history;
               messages1 = [] @ [\<lparr>Role = ''system'', Content = fullSystemPrompt,
                                  SystemParts = contentBlocks, ToolCalls = [],
                                  ToolCallID = ''''\<rparr>];
               messages2 = messages1 @ history';
               messages3 =
                 (if TrimSpace currentMessage \<noteq> '''' then
                    messages2 @ [\<lparr>Role = ''user'', Content = currentMessage, SystemParts = [],
                                  ToolCalls = [], ToolCallID = ''''\<rparr>]
                  else messages2)
           in (messages3, cb')))"

section \<open>Notions used to state the properties\<close>

text \<open>
  The paths of the entries that are not directories below a root, in the order
  \<open>filepath.WalkDir\<close> visits them.
\<close>

fun walkFiles :: "string \<Rightarrow> DirTree \<Rightarrow> string list"
and walkFilesIn :: "string \<Rightarrow> DirTree list \<Rightarrow> string list" where
  "walkFiles path (DirTree nm isd rerr ents) = (if isd then walkFilesIn path ents else [path])"
| "walkFilesIn path [] = []"
| "walkFilesIn path (d1 # ds) =
     walkFiles (filepath_Join [path, tree_Name d1]) d1 @ walkFilesIn path ds"

definition skillsFiles :: "FS \<Rightarrow> string \<Rightarrow> string list" where
  "skillsFiles fs root = (case lstatTree fs root of Inl e \<Rightarrow> [] | Inr t \<Rightarrow> walkFiles root t)"

text \<open>A callback on the files only, run over a list of paths until it returns an error.\<close>

fun runFiles ::
  "(string \<Rightarrow> 's \<Rightarrow> error option \<times> 's) \<Rightarrow> string list \<Rightarrow> 's \<Rightarrow> error option \<times> 's" where
  "runFiles g [] s = (None, s)"
| "runFiles g (p # ps) s =
     (case g p s of (None, s1) \<Rightarrow> runFiles g ps s1 | (Some e, s1) \<Rightarrow> (Some e, s1))"

text \<open>
  The watched paths: the source paths, the skills directory, and the files the walk of the
  skills directory visits; and the modification times of those of them that
  \<open>os.Stat\<close> finds.
\<close>

fun mtimesOf :: "FS \<Rightarrow> string list \<Rightarrow> Time list" where
  "mtimesOf fs [] = []"
| "mtimesOf fs (p # ps) =
     (case stat fs p of None \<Rightarrow> mtimesOf fs ps | Some info \<Rightarrow> ModTime info # mtimesOf fs ps)"

definition watchedPaths :: "FS \<Rightarrow> ContextBuilder \<Rightarrow> string list" where
  "watchedPaths fs cb =
     sourcePaths cb @ [filepath_Join [workspace cb, ''skills'']]
       @ skillsFiles fs (filepath_Join [workspace cb, ''skills''])"

definition observedMtimes :: "FS \<Rightarrow> ContextBuilder \<Rightarrow> Time list" where
  "observedMtimes fs cb = mtimesOf fs (watchedPaths fs cb)"

definition mtUpd :: "FS \<Rightarrow> Time \<Rightarrow> string \<Rightarrow> Time" where
  "mtUpd fs mt p =
     (case stat fs p of
        None \<Rightarrow> mt
      | Some info \<Rightarrow> if After (ModTime info) mt then ModTime info else mt)"

text \<open>
  The staleness algorithm as the specification words it: a list of checks evaluated in
  order, stopping at the first that is true. Each check carries the events it causes, so
  the events of \<open>firstTrue\<close> are those of the checks evaluated.
\<close>

fun firstTrue :: "(bool \<times> event list) list \<Rightarrow> bool \<times> event list" where
  "firstTrue [] = (False, [])"
| "firstTrue ((b, evs) # cs) =
     (if b then (True, evs) else (case firstTrue cs of (r, evs') \<Rightarrow> (r, evs @ evs')))"

definition spec_walkCheck :: "FS \<Rightarrow> Time \<Rightarrow> string \<Rightarrow> bool \<times> event list" where
  "spec_walkCheck fs t p =
     ((case stat fs p of None \<Rightarrow> False | Some info \<Rightarrow> After (ModTime info) t), [EvStat p])"

definition spec_isStale :: "FS \<Rightarrow> ContextBuilder \<Rightarrow> bool \<times> event list" where
  "spec_isStale fs cb =
     (if IsZero (cachedAt cb) then (True, [])
      else firstTrue
             (map (fileChangedSince fs cb) (sourcePaths cb)
              @ [fileChangedSince fs cb (filepath_Join [workspace cb, ''skills''])]
              @ map (spec_walkCheck fs (cachedAt cb))
                    (skillsFiles fs (filepath_Join [workspace cb, ''skills'']))))"

definition modG ::
  "FS \<Rightarrow> Time \<Rightarrow> string \<Rightarrow> bool \<times> event list \<Rightarrow> error option \<times> bool \<times> event list" where
  "modG fs t p s =
     (case stat fs p of
        Some info \<Rightarrow>
          (if After (ModTime info) t then (Some ErrWalkStop, (True, snd s @ [EvStat p]))
           else (None, (fst s, snd s @ [EvStat p])))
      | None \<Rightarrow> (None, (fst s, snd s @ [EvStat p])))"

text \<open>
  The language of the name pattern, said directly: a non-empty run of letters and digits,
  followed by any number of groups of a hyphen and such a run.
\<close>

definition alnumRun :: "string \<Rightarrow> bool" where
  "alnumRun g = (g \<noteq> [] \<and> list_all isAlnum g)"

definition dashed :: "string list \<Rightarrow> string" where
  "dashed gs = concat (map (\<lambda>h. CHR ''-'' # h) gs)"

text \<open>
  The skills \<open>ListSkills\<close> discovers, what makes one malformed, and the list as the
  specification describes it: the well-formed discovered skills, the first of each name.
\<close>

definition candidateOf :: "FS \<Rightarrow> string \<Rightarrow> string \<Rightarrow> DirEntry \<Rightarrow> SkillInfo option" where
  "candidateOf fs dir source d =
     (if \<not> entry_IsDir d then None
      else if stat fs (filepath_Join [dir, entry_Name d, ''SKILL.md'']) = None then None
      else Some (case skillMetadata fs (filepath_Join [dir, entry_Name d, ''SKILL.md'']) of
                   None \<Rightarrow>
                     \<lparr>Name = entry_Name d,
                      Path = filepath_Join [dir, entry_Name d, ''SKILL.md''],
                      Source = source, Description = ''''\<rparr>
                 | Some metadata \<Rightarrow>
                     \<lparr>Name = meta_Name metadata,
                      Path = filepath_Join [dir, entry_Name d, ''SKILL.md''],
                      Source = source, Description = meta_Description metadata\<rparr>))"

definition candidates :: "FS \<Rightarrow> string \<Rightarrow> string \<Rightarrow> SkillInfo list" where
  "candidates fs dir source =
     (if dir = '''' then []
      else (case readDir fs dir of
              None \<Rightarrow> []
            | Some dirs \<Rightarrow> List.map_filter (candidateOf fs dir source) dirs))"

definition discovered :: "FS \<Rightarrow> ContextBuilder \<Rightarrow> SkillInfo list" where
  "discovered fs cb =
     candidates fs (workspaceSkills cb) ''workspace''
     @ candidates fs (globalSkills cb) ''global''
     @ candidates fs (builtinSkills cb) ''builtin''"

definition malformed :: "SkillInfo \<Rightarrow> bool" where
  "malformed info =
     (Name info = '''' \<or> Description info = '''' \<or> length (Name info) > 64
      \<or> length (Description info) > 1024 \<or> \<not> namePattern_MatchString (Name info))"

fun firstByName :: "string set \<Rightarrow> SkillInfo list \<Rightarrow> SkillInfo list" where
  "firstByName S [] = []"
| "firstByName S (i # is) =
     (if Name i \<in> S then firstByName S is else i # firstByName (insert (Name i) S) is)"

definition warningOf :: "SkillInfo \<Rightarrow> warning" where
  "warningOf info = Warning (''invalid skill from '' @ Source info) (Name info) (validate info)"

definition stepInfo :: "SkillInfo \<Rightarrow> ListState \<Rightarrow> ListState" where
  "stepInfo info st =
     (if validate info \<noteq> [] then st\<lparr>warnings := warnings st @ [warningOf info]\<rparr>
      else if lookupBool (seen st) (Name info) then st
      else st\<lparr>seen := (seen st)(Name info \<mapsto> True), skills := skills st @ [info]\<rparr>)"



text \<open>
  \<open>strings.Contains\<close>, and the first line of the block \<open>buildDynamicContext\<close> writes.
\<close>

definition Contains :: "string \<Rightarrow> string \<Rightarrow> bool" where
  "Contains s substr = sublist substr s"

definition timeMarker :: string where
  "timeMarker = ''## Current Time''"

text \<open>
  A sequence of calls of the cached getter, one per environment of the list, each on the
  \<open>ContextBuilder\<close> the call before it left; the builders these calls and
  \<open>InvalidateCache\<close> can reach, in one environment, from a builder with an empty cache;
  and two builders having the same configuration (workspace and skills directories).
\<close>

fun getPrompts :: "FS list \<Rightarrow> ContextBuilder \<Rightarrow> string list" where
  "getPrompts [] cb = []"
| "getPrompts (fs # fss) cb =
     (case BuildSystemPromptWithCache fs cb of (p, cb') \<Rightarrow> p # getPrompts fss cb')"

inductive reachable :: "FS \<Rightarrow> ContextBuilder \<Rightarrow> bool" for fs :: FS where
  reach_new: "cachedSystemPrompt cb = '''' \<Longrightarrow> reachable fs cb"
| reach_get: "reachable fs cb \<Longrightarrow> reachable fs (snd (BuildSystemPromptWithCache fs cb))"
| reach_invalidate: "reachable fs cb \<Longrightarrow> reachable fs (InvalidateCache cb)"

definition sameConfig :: "ContextBuilder \<Rightarrow> ContextBuilder \<Rightarrow> bool" where
  "sameConfig cb cb' =
     (workspace cb' = workspace cb \<and> workspaceSkills cb' = workspaceSkills cb
      \<and> globalSkills cb' = globalSkills cb \<and> builtinSkills cb' = builtinSkills cb)"

text \<open>
  An environment agrees with \<open>fs\<close> on the watched paths of \<open>cb\<close>: the walk of the skills
  directory finds the same tree, and \<open>os.Stat\<close> reports the same for every watched path.
\<close>

definition sameWatched :: "FS \<Rightarrow> ContextBuilder \<Rightarrow> FS \<Rightarrow> bool" where
  "sameWatched fs cb fs' =
     (lstatTree fs' (filepath_Join [workspace cb, ''skills''])
        = lstatTree fs (filepath_Join [workspace cb, ''skills''])
      \<and> list_all (\<lambda>p. stat fs' p = stat fs p) (watchedPaths fs cb))"

text \<open>
  The texts \<open>BuildSystemPrompt\<close> takes from the environment: the absolute path of the
  workspace, the content of each bootstrap file that can be read, the name, description
  and path of each listed skill, and the memory context. \<open>sourcesClean\<close>: none of them
  contains the time marker. \<open>builtClean\<close>: the cache is empty, or it was filled by calls of
  the getter in environments (not necessarily the same) whose texts were clean.
\<close>

definition promptSources :: "FS \<Rightarrow> ContextBuilder \<Rightarrow> string list" where
  "promptSources fs cb =
     [Abs fs (filepath_Join [workspace cb])]
     @ List.map_filter (\<lambda>filename. readFile fs (filepath_Join [workspace cb, filename]))
         [''AGENTS.md'', ''SOUL.md'', ''USER.md'', ''IDENTITY.md'']
     @ concat (map (\<lambda>s. [Name s, Description s, Path s]) (ListSkills fs cb))
     @ [memoryContext fs]"

definition sourcesClean :: "FS \<Rightarrow> ContextBuilder \<Rightarrow> bool" where
  "sourcesClean fs cb = list_all (\<lambda>d. \<not> Contains d timeMarker) (promptSources fs cb)"

inductive builtClean :: "ContextBuilder \<Rightarrow> bool" where
  clean_new: "cachedSystemPrompt cb = '''' \<Longrightarrow> builtClean cb"
| clean_get: "builtClean cb \<Longrightarrow> sourcesClean fs cb
              \<Longrightarrow> builtClean (snd (BuildSystemPromptWithCache fs cb))"
| clean_invalidate: "builtClean cb \<Longrightarrow> builtClean (InvalidateCache cb)"

section \<open>Example environments\<close>

text \<open>
  An environment in which nothing exists, a fresh \<open>ContextBuilder\<close> for the workspace
  \<open>/w\<close>, and variations of both, used to evaluate the definitions at concrete inputs.
\<close>

definition fsEmpty :: FS where
  "fsEmpty =
     \<lparr>stat = (\<lambda>p. None), lstatTree = (\<lambda>p. Inl ErrNotExist), readFile = (\<lambda>p. None),
      readDir = (\<lambda>p. None), skillMetadata = (\<lambda>p. None), memoryContext = '''',
      Abs = (\<lambda>p. p)\<rparr>"

definition cbW :: ContextBuilder where
  "cbW = NewContextBuilder ''/cwd'' ''/home/u/.picoclaw'' ''/w''"

definition fsYearOne :: FS where
  "fsYearOne = fsEmpty\<lparr>stat := [''/w/AGENTS.md'' \<mapsto> \<lparr>ModTime = zeroTime\<rparr>]\<rparr>"

definition fsSkills :: FS where
  "fsSkills =
     fsEmpty\<lparr>
       stat := [''/w/SOUL.md'' \<mapsto> \<lparr>ModTime = Unix 50 0\<rparr>,
                ''/w/skills'' \<mapsto> \<lparr>ModTime = Unix 60 0\<rparr>,
                ''/w/skills/a/SKILL.md'' \<mapsto> \<lparr>ModTime = Unix 70 0\<rparr>,
                ''/w/skills/b/doc.md'' \<mapsto> \<lparr>ModTime = Unix 200 0\<rparr>,
                ''/w/skills/b/z.md'' \<mapsto> \<lparr>ModTime = Unix 300 0\<rparr>],
       lstatTree := (\<lambda>p. if p = ''/w/skills'' then
           Inr (DirTree ''skills'' True None
                  [DirTree ''a'' True None [DirTree ''SKILL.md'' False None []],
                   DirTree ''b'' True None
                     [DirTree ''doc.md'' False None [], DirTree ''z.md'' False None []]])
         else Inl ErrNotExist)\<rparr>"

definition cbCached :: ContextBuilder where
  "cbCached =
     cbW\<lparr>cachedSystemPrompt := ''prompt'', cachedAt := Unix 100 0,
         existedAtCache := Some [''/w/SOUL.md'' \<mapsto> True, ''/w/skills'' \<mapsto> True,
                                 ''/w/USER.md'' \<mapsto> False]\<rparr>"






definition fsMarker :: FS where
  "fsMarker =
     fsEmpty\<lparr>stat := [''/w/AGENTS.md'' \<mapsto> \<lparr>ModTime = Unix 10 0\<rparr>],
             readFile := [''/w/AGENTS.md'' \<mapsto> ''## Current Time\<newline>is shown above.'']\<rparr>"

definition rtExample :: Runtime where
  "rtExample = \<lparr>now = ''2026-01-02 15:04 (Friday)'', GOOS = ''linux'', GOARCH = ''amd64'',
                 Version = ''go1.25''\<rparr>"

definition historyExample :: "nat Message list" where
  "historyExample =
     [\<lparr>Role = ''system'', Content = ''stale system prompt'', SystemParts = [], ToolCalls = [],
       ToolCallID = ''''\<rparr>,
      \<lparr>Role = ''user'', Content = ''hi'', SystemParts = [], ToolCalls = [], ToolCallID = ''''\<rparr>,
      \<lparr>Role = ''assistant'', Content = ''hello'', SystemParts = [], ToolCalls = [],
       ToolCallID = ''''\<rparr>]"

lemmas ex_defs = fsEmpty_def cbW_def NewContextBuilder_def fsYearOne_def fsSkills_def cbCached_def

section \<open>Properties of the sanitizer\<close>

lemma scanBack_take: "n \<le> length s \<Longrightarrow> scanBack s n = spec_tool_anchor (take n s)"
proof (induction n)
  case 0
  then show ?case by (simp add: spec_tool_anchor_def)
next
  case (Suc n)
  then have n: "n < length s" by simp
  then have t: "take (Suc n) s = take n s @ [s ! n]"
    by (simp add: take_Suc_conv_app_nth)
  show ?case
  proof (cases "Role (s ! n) = ''tool''")
    case True
    with Suc n t show ?thesis by (simp add: spec_tool_anchor_def)
  next
    case False
    with t show ?thesis by (simp add: spec_tool_anchor_def)
  qed
qed

lemma scanBack_spec: "scanBack s (length s) = spec_tool_anchor s"
  using scanBack_take [of "length s" s] by simp

lemma sanitizeStep_spec:
  "sanitizeStep acc m = (if spec_keeps acc m then acc @ [m] else acc)"
  by (simp add: sanitizeStep_def spec_keeps_def scanBack_spec last_conv_nth Let_def)

lemma sanitizeLoop_spec:
  "sanitizeLoop acc h = foldl (\<lambda>a m. if spec_keeps a m then a @ [m] else a) acc h"
  by (induction h arbitrary: acc) (simp_all add: sanitizeStep_spec)

lemma sanitizeStep_no_system:
  "\<forall>x \<in> set acc. Role x \<noteq> ''system'' \<Longrightarrow> \<forall>x \<in> set (sanitizeStep acc m). Role x \<noteq> ''system''"
  by (simp add: sanitizeStep_def Let_def)

lemma sanitizeLoop_no_system:
  "\<forall>x \<in> set acc. Role x \<noteq> ''system'' \<Longrightarrow> \<forall>x \<in> set (sanitizeLoop acc h). Role x \<noteq> ''system''"
proof (induction h arbitrary: acc)
  case Nil
  then show ?case by simp
next
  case (Cons m h)
  from Cons.prems have "\<forall>x \<in> set (sanitizeStep acc m). Role x \<noteq> ''system''"
    by (rule sanitizeStep_no_system)
  then show ?case using Cons.IH by simp
qed

lemma sanitize_no_system:
  "\<forall>x \<in> set (sanitizeHistoryForProvider h). Role x \<noteq> ''system''"
proof (cases h)
  case Nil
  then show ?thesis by (simp add: sanitizeHistoryForProvider_def)
next
  case (Cons m t)
  have "\<forall>x \<in> set (sanitizeLoop [] h). Role x \<noteq> ''system''"
    by (rule sanitizeLoop_no_system) simp
  with Cons show ?thesis by (simp add: sanitizeHistoryForProvider_def)
qed

text \<open>
  C5. For every input history the sanitizer computes what the specification's rules
  compute when applied in input order to an output accumulator: system messages are
  dropped; a tool message is dropped on an empty accumulator and otherwise kept exactly
  when the first non-tool message found scanning the accumulator backward is an
  assistant message with at least one tool call; an assistant message with tool calls
  is dropped on an empty accumulator or when the last accumulated message is neither
  user nor tool; every other message is kept.
\<close>

theorem sanitize_refines_spec:
  "sanitizeHistoryForProvider history = spec_sanitize history"
  by (cases history)
     (simp_all add: sanitizeHistoryForProvider_def spec_sanitize_def sanitizeLoop_spec)

theorem sanitize_refines_spec_witness:
  "sanitizeHistoryForProvider
     [\<lparr>Role = ''system'', Content = ''old'', SystemParts = [], ToolCalls = [], ToolCallID = ''''\<rparr>,
      \<lparr>Role = ''tool'', Content = ''r0'', SystemParts = [], ToolCalls = [], ToolCallID = ''c0''\<rparr>,
      \<lparr>Role = ''user'', Content = ''hi'', SystemParts = [], ToolCalls = [], ToolCallID = ''''\<rparr>,
      \<lparr>Role = ''assistant'', Content = '''', SystemParts = [], ToolCalls = [1::nat, 2], ToolCallID = ''''\<rparr>,
      \<lparr>Role = ''tool'', Content = ''r1'', SystemParts = [], ToolCalls = [], ToolCallID = ''c1''\<rparr>,
      \<lparr>Role = ''tool'', Content = ''r2'', SystemParts = [], ToolCalls = [], ToolCallID = ''c2''\<rparr>,
      \<lparr>Role = ''assistant'', Content = ''done'', SystemParts = [], ToolCalls = [], ToolCallID = ''''\<rparr>,
      \<lparr>Role = ''assistant'', Content = '''', SystemParts = [], ToolCalls = [3], ToolCallID = ''''\<rparr>]
   = [\<lparr>Role = ''user'', Content = ''hi'', SystemParts = [], ToolCalls = [], ToolCallID = ''''\<rparr>,
      \<lparr>Role = ''assistant'', Content = '''', SystemParts = [], ToolCalls = [1::nat, 2], ToolCallID = ''''\<rparr>,
      \<lparr>Role = ''tool'', Content = ''r1'', SystemParts = [], ToolCalls = [], ToolCallID = ''c1''\<rparr>,
      \<lparr>Role = ''tool'', Content = ''r2'', SystemParts = [], ToolCalls = [], ToolCallID = ''c2''\<rparr>,
      \<lparr>Role = ''assistant'', Content = ''done'', SystemParts = [], ToolCalls = [], ToolCallID = ''''\<rparr>]"
  unfolding sanitize_refines_spec
  by (simp add: spec_sanitize_def spec_keeps_def spec_tool_anchor_def)

text \<open>
  C10. \<open>AddAssistantMessage\<close> returns the input list followed by exactly one new
  message with role assistant, the given content and no tool calls, whatever the
  \<open>toolCalls\<close> argument is; the elements already in the list are unchanged.
\<close>

theorem AddAssistantMessage_appends:
  "AddAssistantMessage messages content toolCalls =
     messages @ [\<lparr>Role = ''assistant'', Content = content, SystemParts = [],
                  ToolCalls = [], ToolCallID = ''''\<rparr>]
   \<and> length (AddAssistantMessage messages content toolCalls) = Suc (length messages)
   \<and> take (length messages) (AddAssistantMessage messages content toolCalls) = messages
   \<and> Role (last (AddAssistantMessage messages content toolCalls)) = ''assistant''
   \<and> Content (last (AddAssistantMessage messages content toolCalls)) = content
   \<and> ToolCalls (last (AddAssistantMessage messages content toolCalls)) = []"
  by (simp add: AddAssistantMessage_def)

section \<open>Properties of the walk\<close>

lemma runFiles_append:
  "runFiles g (xs @ ys) s =
     (case runFiles g xs s of (None, s1) \<Rightarrow> runFiles g ys s1 | (Some e, s1) \<Rightarrow> (Some e, s1))"
  by (induction xs arbitrary: s) (auto split: prod.splits option.splits)

lemma runFiles_not_SkipDir:
  assumes "\<And>p s e s'. g p s = (Some e, s') \<Longrightarrow> e = ErrWalkStop"
  shows "runFiles g ps s = (Some e, s') \<Longrightarrow> e = ErrWalkStop"
  using assms by (induction ps arbitrary: s) (auto split: prod.splits option.splits)

lemma walk_runFiles:
  fixes fn :: "'s WalkDirFunc"
  shows "(\<And>path d e s. fn path d (Some e) s = (None, s)) \<Longrightarrow>
         (\<And>path s. fn path (Some True) None s = (None, s)) \<Longrightarrow>
         (\<And>path s. fn path (Some False) None s = g path s) \<Longrightarrow>
         (\<And>p s e s'. g p s = (Some e, s') \<Longrightarrow> e = ErrWalkStop) \<Longrightarrow>
         walkDir path t fn s = runFiles g (walkFiles path t) s"
    and "(\<And>path d e s. fn path d (Some e) s = (None, s)) \<Longrightarrow>
         (\<And>path s. fn path (Some True) None s = (None, s)) \<Longrightarrow>
         (\<And>path s. fn path (Some False) None s = g path s) \<Longrightarrow>
         (\<And>p s e s'. g p s = (Some e, s') \<Longrightarrow> e = ErrWalkStop) \<Longrightarrow>
         walkDirs path ts fn s = runFiles g (walkFilesIn path ts) s"
proof (induction path t fn s and path ts fn s rule: walkDir_walkDirs.induct)
  case (1 path nm isd rerr ents fn s)
  note A = "1.prems"(1) and B = "1.prems"(2) and C = "1.prems"(3) and D = "1.prems"(4)
  show ?case
  proof (cases isd)
    case True
    show ?thesis
    proof (cases rerr)
      case None
      have "walkDirs path ents fn s = runFiles g (walkFilesIn path ents) s"
        using "1.IH"(1) [OF _ _ _ _ A B C D] True None B by simp
      with True None show ?thesis by (simp add: B)
    next
      case (Some e)
      have "walkDirs path ents fn s = runFiles g (walkFilesIn path ents) s"
        using "1.IH"(2) [OF _ _ _ _ _ _ A B C D] True Some A B by simp
      with True Some show ?thesis by (simp add: A B)
    qed
  next
    case False
    then show ?thesis using C D [of path s]
      by (auto split: prod.splits option.splits)
  qed
next
  case (2 path fn s)
  then show ?case by simp
next
  case (3 path d1 ds fn s)
  note A = "3.prems"(1) and B = "3.prems"(2) and C = "3.prems"(3) and D = "3.prems"(4)
  have r1: "walkDir (filepath_Join [path, tree_Name d1]) d1 fn s
              = runFiles g (walkFiles (filepath_Join [path, tree_Name d1]) d1) s"
    using "3.IH"(1) [OF A B C D] by simp
  show ?case
  proof (cases "walkDir (filepath_Join [path, tree_Name d1]) d1 fn s")
    case (Pair err s1)
    show ?thesis
    proof (cases err)
      case None
      have "walkDirs path ds fn s1 = runFiles g (walkFilesIn path ds) s1"
        using "3.IH"(2) [OF _ _ A B C D] Pair None by simp
      with Pair None r1 show ?thesis by (simp add: runFiles_append)
    next
      case (Some e)
      with Pair r1 have r: "runFiles g (walkFiles (filepath_Join [path, tree_Name d1]) d1) s = (Some e, s1)"
        by simp
      then have "e = ErrWalkStop" using runFiles_not_SkipDir [of g] D by blast
      with Pair Some r show ?thesis by (simp add: runFiles_append)
    qed
  qed
qed

section \<open>Properties of the baseline snapshot\<close>

lemma runFiles_baseline:
  "runFiles (\<lambda>p mt. (None, mtUpd fs mt p)) ps mt = (None, foldl (mtUpd fs) mt ps)"
  by (induction ps arbitrary: mt) simp_all

lemma baselineFn_walk:
  "walkDir root t (baselineFn fs) mt = (None, foldl (mtUpd fs) mt (walkFiles root t))"
proof -
  have "walkDir root t (baselineFn fs) mt
          = runFiles (\<lambda>p mt. (None, mtUpd fs mt p)) (walkFiles root t) mt"
    by (rule walk_runFiles(1))
       (auto simp: baselineFn_def mtUpd_def split: option.splits)
  then show ?thesis by (simp add: runFiles_baseline)
qed

lemma WalkDir_baseline:
  "WalkDir fs root (baselineFn fs) mt = (None, foldl (mtUpd fs) mt (skillsFiles fs root))"
  by (cases "lstatTree fs root")
     (simp_all add: WalkDir_def skillsFiles_def baselineFn_walk, simp add: baselineFn_def)

lemma baselineLoop_snd:
  "snd (baselineLoop fs ps (ex, mt)) = foldl (mtUpd fs) mt ps"
  by (induction ps arbitrary: ex mt) (auto simp: mtUpd_def split: option.splits)

lemma baselineLoop_fst:
  "fst (baselineLoop fs ps (ex, mt)) p
     = (if p \<in> set ps then Some (stat fs p \<noteq> None) else ex p)"
  by (induction ps arbitrary: ex mt) (auto split: option.splits)

lemma foldl_mtUpd_Max:
  "foldl (mtUpd fs) mt ps = Max (set (mt # mtimesOf fs ps))"
proof (induction ps arbitrary: mt)
  case Nil
  then show ?case by simp
next
  case (Cons p ps)
  show ?case
  proof (cases "stat fs p")
    case None
    then show ?thesis using Cons [of mt] by (simp add: mtUpd_def)
  next
    case (Some info)
    have "Max (insert (max mt (ModTime info)) (set (mtimesOf fs ps)))
            = Max (insert mt (insert (ModTime info) (set (mtimesOf fs ps))))"
      by (metis List.finite_set Max_insert Max_singleton finite.insertI insert_not_empty max.assoc max.commute)
    moreover have "mtUpd fs mt p = max mt (ModTime info)"
      using Some by (auto simp: mtUpd_def After_def max_def)
    ultimately show ?thesis using Cons [of "max mt (ModTime info)"] Some by simp
  qed
qed

lemma mtimesOf_append: "mtimesOf fs (xs @ ys) = mtimesOf fs xs @ mtimesOf fs ys"
  by (induction xs) (auto split: option.splits)

lemma mtimesOf_none: "\<forall>p \<in> set ps. stat fs p = None \<Longrightarrow> mtimesOf fs ps = []"
  by (induction ps) auto

lemma buildCacheBaseline_maxMtime:
  "maxMtime (buildCacheBaseline fs cb)
     = (let m = Max (set (zeroTime # observedMtimes fs cb))
        in if IsZero m then Unix 1 0 else m)"
proof -
  let ?sd = "filepath_Join [workspace cb, ''skills'']"
  let ?all = "sourcePaths cb @ [?sd]"
  obtain ex mt1 where L: "baselineLoop fs ?all (Map.empty, zeroTime) = (ex, mt1)"
    by (cases "baselineLoop fs ?all (Map.empty, zeroTime)")
  have mt1: "mt1 = foldl (mtUpd fs) zeroTime ?all"
    using baselineLoop_snd [of fs ?all Map.empty zeroTime] L by simp
  have "snd (WalkDir fs ?sd (baselineFn fs) mt1)
          = foldl (mtUpd fs) zeroTime (?all @ skillsFiles fs ?sd)"
    by (simp only: WalkDir_baseline snd_conv mt1 foldl_append)
  also have "\<dots> = Max (set (zeroTime # observedMtimes fs cb))"
    by (simp only: foldl_mtUpd_Max observedMtimes_def watchedPaths_def append_assoc)
  finally show ?thesis using L
    by (simp add: buildCacheBaseline_def Let_def)
qed

lemma buildCacheBaseline_existed:
  "existed (buildCacheBaseline fs cb) p
     = (if p \<in> set (sourcePaths cb @ [filepath_Join [workspace cb, ''skills'']])
        then Some (stat fs p \<noteq> None) else None)"
proof -
  let ?sd = "filepath_Join [workspace cb, ''skills'']"
  let ?all = "sourcePaths cb @ [?sd]"
  obtain ex mt1 where L: "baselineLoop fs ?all (Map.empty, zeroTime) = (ex, mt1)"
    by (cases "baselineLoop fs ?all (Map.empty, zeroTime)")
  have "ex p = (if p \<in> set ?all then Some (stat fs p \<noteq> None) else None)"
    using baselineLoop_fst [of fs ?all Map.empty zeroTime p] L by simp
  then show ?thesis using L by (simp add: buildCacheBaseline_def Let_def)
qed

text \<open>
  C3 (as amended). When no watched path exists (none of the source paths, nor the skills
  directory, nor anything the walk visits below it), \<open>buildCacheBaseline\<close> returns
  \<open>maxMtime = time.Unix(1, 0)\<close>, which is not the zero time and does not depend on the
  clock, and records \<open>existed = false\<close> for every tracked path. When at least one
  observed modification time is strictly after the zero time, \<open>maxMtime\<close> is the maximum
  of the observed modification times. When every observed modification time is at or
  before the zero time, \<open>maxMtime\<close> is \<open>time.Unix(1, 0)\<close> again. In every case the map
  records for each tracked path whether \<open>os.Stat\<close> found it, and \<open>maxMtime\<close> is not the
  zero time.
\<close>

theorem buildCacheBaseline_sentinel:
  "((\<forall>p \<in> set (watchedPaths fs cb). stat fs p = None) \<longrightarrow>
      maxMtime (buildCacheBaseline fs cb) = Unix 1 0
      \<and> (\<forall>p \<in> set (sourcePaths cb @ [filepath_Join [workspace cb, ''skills'']]).
            existed (buildCacheBaseline fs cb) p = Some False))
   \<and> ((\<exists>t \<in> set (observedMtimes fs cb). After t zeroTime) \<longrightarrow>
      maxMtime (buildCacheBaseline fs cb) = Max (set (observedMtimes fs cb)))
   \<and> ((\<forall>t \<in> set (observedMtimes fs cb). \<not> After t zeroTime) \<longrightarrow>
      maxMtime (buildCacheBaseline fs cb) = Unix 1 0)
   \<and> (\<forall>p \<in> set (sourcePaths cb @ [filepath_Join [workspace cb, ''skills'']]).
         existed (buildCacheBaseline fs cb) p = Some (stat fs p \<noteq> None))
   \<and> \<not> IsZero (Unix 1 0)
   \<and> \<not> IsZero (maxMtime (buildCacheBaseline fs cb))"
proof -
  let ?obs = "observedMtimes fs cb"
  let ?m = "Max (set (zeroTime # ?obs))"
  have mx: "maxMtime (buildCacheBaseline fs cb) = (if IsZero ?m then Unix 1 0 else ?m)"
    by (simp add: buildCacheBaseline_maxMtime Let_def)
  have u: "\<not> IsZero (Unix 1 0)"
    by (simp add: IsZero_def Unix_def zeroTime_def)
  have ge: "zeroTime \<le> ?m" by simp
  have a: "(\<forall>p \<in> set (watchedPaths fs cb). stat fs p = None) \<Longrightarrow>
             maxMtime (buildCacheBaseline fs cb) = Unix 1 0"
    using mx by (simp add: observedMtimes_def mtimesOf_none IsZero_def)
  have b: "(\<exists>t \<in> set ?obs. After t zeroTime) \<Longrightarrow>
             maxMtime (buildCacheBaseline fs cb) = Max (set ?obs)"
  proof -
    assume "\<exists>t \<in> set ?obs. After t zeroTime"
    then obtain t where t: "t \<in> set ?obs" "zeroTime < t" by (auto simp: After_def)
    then have ne: "set ?obs \<noteq> {}" by auto
    have le: "t \<le> Max (set ?obs)" using t by simp
    have lt: "zeroTime < Max (set ?obs)" using t(2) le by (rule less_le_trans)
    have "?m = max zeroTime (Max (set ?obs))" using ne by simp
    with lt have "?m = Max (set ?obs)" by simp
    with lt mx show ?thesis by (simp add: IsZero_def)
  qed
  have c: "(\<forall>t \<in> set ?obs. \<not> After t zeroTime) \<Longrightarrow>
             maxMtime (buildCacheBaseline fs cb) = Unix 1 0"
  proof -
    assume h: "\<forall>t \<in> set ?obs. \<not> After t zeroTime"
    have "?m = zeroTime"
    proof (rule Max_eqI)
      show "finite (set (zeroTime # ?obs))" by simp
      show "zeroTime \<in> set (zeroTime # ?obs)" by simp
      fix y assume "y \<in> set (zeroTime # ?obs)"
      then show "y \<le> zeroTime" using h by (auto simp: After_def not_less)
    qed
    with mx show ?thesis by (simp add: IsZero_def)
  qed
  have d: "\<not> IsZero (maxMtime (buildCacheBaseline fs cb))"
    using mx u by (simp split: if_splits)
  have e: "\<forall>p \<in> set (sourcePaths cb @ [filepath_Join [workspace cb, ''skills'']]).
             existed (buildCacheBaseline fs cb) p = Some (stat fs p \<noteq> None)"
    by (simp add: buildCacheBaseline_existed)
  have f: "(\<forall>p \<in> set (watchedPaths fs cb). stat fs p = None) \<Longrightarrow>
             (\<forall>p \<in> set (sourcePaths cb @ [filepath_Join [workspace cb, ''skills'']]).
                existed (buildCacheBaseline fs cb) p = Some False)"
    using e by (simp add: watchedPaths_def)
  show ?thesis using a b c d e f u by blast
qed

theorem buildCacheBaseline_sentinel_witness:
  "maxMtime (buildCacheBaseline fsEmpty cbW) = Unix 1 0
   \<and> existed (buildCacheBaseline fsEmpty cbW) ''/w/SOUL.md'' = Some False
   \<and> maxMtime (buildCacheBaseline fsSkills cbW) = Unix 300 0
   \<and> maxMtime (buildCacheBaseline fsYearOne cbW) = Unix 1 0"
proof -
  have w1: "watchedPaths fsEmpty cbW =
              [''/w/AGENTS.md'', ''/w/SOUL.md'', ''/w/USER.md'', ''/w/IDENTITY.md'',
               ''/w/memory/MEMORY.md'', ''/w/skills'']"
    by (simp add: watchedPaths_def skillsFiles_def sourcePaths_def ex_defs filepath_Join.simps)
  have o2: "observedMtimes fsSkills cbW = [Unix 50 0, Unix 60 0, Unix 70 0, Unix 200 0, Unix 300 0]"
    by (simp add: observedMtimes_def watchedPaths_def skillsFiles_def sourcePaths_def ex_defs
          filepath_Join.simps)
  have o3: "observedMtimes fsYearOne cbW = [zeroTime]"
    by (simp add: observedMtimes_def watchedPaths_def skillsFiles_def sourcePaths_def ex_defs
          filepath_Join.simps)
  have h1: "\<forall>p \<in> set (watchedPaths fsEmpty cbW). stat fsEmpty p = None"
    by (simp add: fsEmpty_def)
  have h2: "\<exists>t \<in> set (observedMtimes fsSkills cbW). After t zeroTime"
    by (simp add: o2 After_def Unix_def zeroTime_def)
  have h3: "\<forall>t \<in> set (observedMtimes fsYearOne cbW). \<not> After t zeroTime"
    by (simp add: o3 After_def)
  have m2: "Max (set (observedMtimes fsSkills cbW)) = Unix 300 0"
    by (simp add: o2 Unix_def)
  have s: "''/w/SOUL.md'' \<in> set (sourcePaths cbW @ [filepath_Join [workspace cbW, ''skills'']])"
    by (simp add: sourcePaths_def ex_defs filepath_Join.simps)
  have r1: "maxMtime (buildCacheBaseline fsEmpty cbW) = Unix 1 0"
    and r1': "\<forall>p \<in> set (sourcePaths cbW @ [filepath_Join [workspace cbW, ''skills'']]).
               existed (buildCacheBaseline fsEmpty cbW) p = Some False"
    using buildCacheBaseline_sentinel [of fsEmpty cbW] h1 by blast+
  have r2: "maxMtime (buildCacheBaseline fsSkills cbW) = Max (set (observedMtimes fsSkills cbW))"
    using buildCacheBaseline_sentinel [of fsSkills cbW] h2 by blast
  have r3: "maxMtime (buildCacheBaseline fsYearOne cbW) = Unix 1 0"
    using buildCacheBaseline_sentinel [of fsYearOne cbW] h3 by blast
  have r1'': "existed (buildCacheBaseline fsEmpty cbW) ''/w/SOUL.md'' = Some False"
    using r1' s by blast
  show ?thesis using r1 r1'' r2 r3 m2 by simp
qed

text \<open>
  The claim as first stated ("whenever at least one watched file exists, maxMtime equals
  the maximum mtime actually observed") fails for a workspace whose only watched file has
  the zero time as its modification time: the file exists and is observed, and the
  baseline holds \<open>time.Unix(1, 0)\<close>.
\<close>

theorem buildCacheBaseline_max_counterexample:
  "stat fsYearOne ''/w/AGENTS.md'' = Some \<lparr>ModTime = zeroTime\<rparr>
   \<and> observedMtimes fsYearOne cbW = [zeroTime]
   \<and> maxMtime (buildCacheBaseline fsYearOne cbW) = Unix 1 0
   \<and> Unix 1 0 \<noteq> Max (set (observedMtimes fsYearOne cbW))"
proof -
  have o3: "observedMtimes fsYearOne cbW = [zeroTime]"
    by (simp add: observedMtimes_def watchedPaths_def skillsFiles_def sourcePaths_def ex_defs
          filepath_Join.simps)
  have m: "maxMtime (buildCacheBaseline fsYearOne cbW) = Unix 1 0"
    by (simp add: buildCacheBaseline_maxMtime o3 IsZero_def)
  show ?thesis using o3 m
    by (simp add: fsYearOne_def fsEmpty_def Unix_def zeroTime_def)
qed

section \<open>Properties of the staleness detector\<close>

lemma firstTrue_append:
  "firstTrue (xs @ ys) =
     (case firstTrue xs of
        (True, evs) \<Rightarrow> (True, evs)
      | (False, evs) \<Rightarrow> (case firstTrue ys of (r, evs') \<Rightarrow> (r, evs @ evs')))"
  by (induction xs rule: firstTrue.induct) (auto split: prod.splits bool.splits)

lemma runFiles_modG:
  "runFiles (modG fs t) ps (False, evs) =
     (case firstTrue (map (spec_walkCheck fs t) ps) of
        (r, evs') \<Rightarrow> (if r then Some ErrWalkStop else None, (r, evs @ evs')))"
proof (induction ps arbitrary: evs)
  case Nil
  then show ?case by simp
next
  case (Cons p ps)
  show ?case
  proof (cases "stat fs p")
    case None
    then show ?thesis using Cons [of "evs @ [EvStat p]"]
      by (simp add: modG_def spec_walkCheck_def split: prod.splits)
  next
    case (Some info)
    then show ?thesis using Cons [of "evs @ [EvStat p]"]
      by (simp add: modG_def spec_walkCheck_def split: prod.splits)
  qed
qed

lemma modifiedFn_walk:
  "walkDir root tr (modifiedFn fs t) s = runFiles (modG fs t) (walkFiles root tr) s"
  by (rule walk_runFiles(1))
     (auto simp: modifiedFn_def modG_def split: option.splits if_splits)

lemma WalkDir_modified:
  "WalkDir fs root (modifiedFn fs t) (False, []) =
     (case firstTrue (map (spec_walkCheck fs t) (skillsFiles fs root)) of
        (r, evs) \<Rightarrow> (if r then Some ErrWalkStop else None, (r, evs)))"
proof (cases "lstatTree fs root")
  case (Inl e)
  then show ?thesis by (simp add: WalkDir_def skillsFiles_def modifiedFn_def)
next
  case (Inr tr)
  then show ?thesis
    by (simp add: WalkDir_def skillsFiles_def modifiedFn_walk runFiles_modG split: prod.splits)
qed

lemma skillFilesModifiedSince_firstTrue:
  "skillFilesModifiedSince fs root t = firstTrue (map (spec_walkCheck fs t) (skillsFiles fs root))"
  by (simp add: skillFilesModifiedSince_def WalkDir_modified IsNotExist_def split: prod.splits)

lemma sourcePathsLoop_firstTrue:
  "sourcePathsLoop fs cb ps = firstTrue (map (fileChangedSince fs cb) ps)"
proof (induction ps)
  case Nil
  then show ?case by simp
next
  case (Cons p ps)
  then show ?case
    by (cases "fileChangedSince fs cb p") (auto split: prod.splits bool.splits)
qed

lemma sourceFilesChangedLocked_spec:
  "sourceFilesChangedLocked fs cb = spec_isStale fs cb"
proof (cases "IsZero (cachedAt cb)")
  case True
  then show ?thesis by (simp add: sourceFilesChangedLocked_def spec_isStale_def)
next
  case False
  let ?sd = "filepath_Join [workspace cb, ''skills'']"
  obtain b2 e2 where f2: "fileChangedSince fs cb ?sd = (b2, e2)"
    by (cases "fileChangedSince fs cb ?sd")
  show ?thesis using False f2
    by (simp add: sourceFilesChangedLocked_def spec_isStale_def sourcePathsLoop_firstTrue
          skillFilesModifiedSince_firstTrue firstTrue_append Let_def
          split: prod.splits bool.splits)
qed

text \<open>
  C2. The per-path check answers: changed when the existence map is nil; changed when the
  recorded flag of the path (false for a path the map does not hold) differs from whether
  \<open>os.Stat\<close> succeeds now; unchanged when the path was absent and is absent; and, when it
  existed and exists, changed exactly if its modification time is strictly after
  \<open>cachedAt\<close>.
\<close>

theorem fileChangedSince_cases:
  "(existedAtCache cb = None \<longrightarrow> fst (fileChangedSince fs cb path))
   \<and> (\<forall>m. existedAtCache cb = Some m \<longrightarrow>
          (lookupBool m path \<noteq> (stat fs path \<noteq> None) \<longrightarrow> fst (fileChangedSince fs cb path))
        \<and> (\<not> lookupBool m path \<and> stat fs path = None \<longrightarrow> \<not> fst (fileChangedSince fs cb path))
        \<and> (\<forall>info. lookupBool m path \<and> stat fs path = Some info \<longrightarrow>
              fst (fileChangedSince fs cb path) = After (ModTime info) (cachedAt cb)))"
  by (auto simp: fileChangedSince_def Let_def split: option.splits)

theorem fileChangedSince_cases_witness:
  "fst (fileChangedSince fsSkills cbW ''/w/SOUL.md'')
   \<and> fst (fileChangedSince fsSkills cbCached ''/w/AGENTS.md'') = False
   \<and> fst (fileChangedSince fsEmpty cbCached ''/w/SOUL.md'')
   \<and> fst (fileChangedSince fsSkills cbCached ''/w/skills/a/SKILL.md'')
   \<and> fst (fileChangedSince fsSkills cbCached ''/w/SOUL.md'') = False
   \<and> fst (fileChangedSince fsSkills (cbCached\<lparr>cachedAt := Unix 10 0\<rparr>) ''/w/SOUL.md'')"
  using fileChangedSince_cases [of cbW fsSkills "''/w/SOUL.md''"]
        fileChangedSince_cases [of cbCached fsSkills "''/w/AGENTS.md''"]
        fileChangedSince_cases [of cbCached fsEmpty "''/w/SOUL.md''"]
        fileChangedSince_cases [of cbCached fsSkills "''/w/skills/a/SKILL.md''"]
        fileChangedSince_cases [of cbCached fsSkills "''/w/SOUL.md''"]
        fileChangedSince_cases [of "cbCached\<lparr>cachedAt := Unix 10 0\<rparr>" fsSkills "''/w/SOUL.md''"]
  by (simp add: ex_defs lookupBool_def After_def Unix_def)

text \<open>
  C4. The detector computes what the specification's algorithm computes, and causes the
  same events in the same order: with a zero \<open>cachedAt\<close> it answers stale at once and
  touches no file; otherwise it runs, in this order and stopping at the first check that
  is true, the per-path check on each source path, the same check on the skills directory,
  and then, for each entry below the skills directory that is not a directory, in the
  order of the walk, the test that \<open>os.Stat\<close> finds it with a modification time
  strictly after \<open>cachedAt\<close>. The walk returns the sentinel \<open>errWalkStop\<close> exactly
  when it found such a file, and nil otherwise; when \<open>os.Lstat\<close> fails on the skills
  directory the walk reports no change, issues no \<open>os.Stat\<close> and logs nothing.
\<close>

theorem sourceFilesChangedLocked_order:
  "sourceFilesChangedLocked fs cb = spec_isStale fs cb
   \<and> (IsZero (cachedAt cb) \<longrightarrow> sourceFilesChangedLocked fs cb = (True, []))
   \<and> skillFilesModifiedSince fs root t
        = firstTrue (map (spec_walkCheck fs t) (skillsFiles fs root))
   \<and> fst (WalkDir fs root (modifiedFn fs t) (False, []))
        = (if fst (skillFilesModifiedSince fs root t) then Some ErrWalkStop else None)
   \<and> (\<forall>e. lstatTree fs root = Inl e \<longrightarrow> skillFilesModifiedSince fs root t = (False, []))"
proof -
  have a: "IsZero (cachedAt cb) \<Longrightarrow> sourceFilesChangedLocked fs cb = (True, [])"
    by (simp add: sourceFilesChangedLocked_def)
  have b: "fst (WalkDir fs root (modifiedFn fs t) (False, []))
        = (if fst (skillFilesModifiedSince fs root t) then Some ErrWalkStop else None)"
    by (simp add: skillFilesModifiedSince_firstTrue WalkDir_modified split: prod.splits)
  have c: "\<And>e. lstatTree fs root = Inl e \<Longrightarrow> skillFilesModifiedSince fs root t = (False, [])"
    by (simp add: skillFilesModifiedSince_firstTrue skillsFiles_def)
  show ?thesis using a b c
    by (simp add: sourceFilesChangedLocked_spec skillFilesModifiedSince_firstTrue)
qed

theorem sourceFilesChangedLocked_order_witness:
  "sourceFilesChangedLocked fsSkills cbCached =
     (True, [EvStat ''/w/AGENTS.md'', EvStat ''/w/SOUL.md'', EvStat ''/w/USER.md'',
             EvStat ''/w/IDENTITY.md'', EvStat ''/w/memory/MEMORY.md'', EvStat ''/w/skills'',
             EvStat ''/w/skills/a/SKILL.md'', EvStat ''/w/skills/b/doc.md''])
   \<and> sourceFilesChangedLocked fsSkills cbW = (True, [])
   \<and> skillFilesModifiedSince fsEmpty ''/w/skills'' (Unix 100 0) = (False, [])
   \<and> fst (WalkDir fsSkills ''/w/skills'' (modifiedFn fsSkills (Unix 100 0)) (False, []))
        = Some ErrWalkStop"
proof -
  have s: "skillsFiles fsSkills ''/w/skills'' =
             [''/w/skills/a/SKILL.md'', ''/w/skills/b/doc.md'', ''/w/skills/b/z.md'']"
    by (simp add: skillsFiles_def ex_defs filepath_Join.simps)
  have e: "lstatTree fsEmpty ''/w/skills'' = Inl ErrNotExist"
    by (simp add: fsEmpty_def)
  have z: "IsZero (cachedAt cbW)"
    by (simp add: ex_defs IsZero_def)
  have w: "workspace cbCached = ''/w''" "cachedAt cbCached = Unix 100 0"
    by (simp_all add: ex_defs)
  have p: "sourcePaths cbCached = [''/w/AGENTS.md'', ''/w/SOUL.md'', ''/w/USER.md'', ''/w/IDENTITY.md'', ''/w/memory/MEMORY.md'']"
    by (simp add: sourcePaths_def ex_defs filepath_Join.simps)
  have j: "filepath_Join [''/w'', ''skills''] = ''/w/skills''"
    by (simp add: filepath_Join.simps)
  have nz: "\<not> IsZero (Unix 100 0)"
    by (simp add: IsZero_def zeroTime_def Unix_def)
  have f:
    "fileChangedSince fsSkills cbCached ''/w/AGENTS.md'' = (False, [EvStat ''/w/AGENTS.md''])"
    "fileChangedSince fsSkills cbCached ''/w/SOUL.md'' = (False, [EvStat ''/w/SOUL.md''])"
    "fileChangedSince fsSkills cbCached ''/w/USER.md'' = (False, [EvStat ''/w/USER.md''])"
    "fileChangedSince fsSkills cbCached ''/w/IDENTITY.md'' = (False, [EvStat ''/w/IDENTITY.md''])"
    "fileChangedSince fsSkills cbCached ''/w/memory/MEMORY.md''
       = (False, [EvStat ''/w/memory/MEMORY.md''])"
    "fileChangedSince fsSkills cbCached ''/w/skills'' = (False, [EvStat ''/w/skills''])"
    by (simp_all add: fileChangedSince_def ex_defs lookupBool_def After_def Unix_def)
  have c:
    "spec_walkCheck fsSkills (Unix 100 0) ''/w/skills/a/SKILL.md''
       = (False, [EvStat ''/w/skills/a/SKILL.md''])"
    "spec_walkCheck fsSkills (Unix 100 0) ''/w/skills/b/doc.md''
       = (True, [EvStat ''/w/skills/b/doc.md''])"
    by (simp_all add: spec_walkCheck_def ex_defs After_def Unix_def)
  have st: "spec_isStale fsSkills cbCached =
     (True, [EvStat ''/w/AGENTS.md'', EvStat ''/w/SOUL.md'', EvStat ''/w/USER.md'',
             EvStat ''/w/IDENTITY.md'', EvStat ''/w/memory/MEMORY.md'', EvStat ''/w/skills'',
             EvStat ''/w/skills/a/SKILL.md'', EvStat ''/w/skills/b/doc.md''])"
    unfolding spec_isStale_def w p j s
    by (simp add: nz f c)
  have m: "firstTrue (map (spec_walkCheck fsSkills (Unix 100 0)) (skillsFiles fsSkills ''/w/skills''))
            = (True, [EvStat ''/w/skills/a/SKILL.md'', EvStat ''/w/skills/b/doc.md''])"
    unfolding s by (simp add: c)
  note t1 = sourceFilesChangedLocked_order [of fsSkills cbCached "''/w/skills''" "Unix 100 0"]
  note t2 = sourceFilesChangedLocked_order [of fsSkills cbW "''/w/skills''" "Unix 100 0"]
  note t3 = sourceFilesChangedLocked_order [of fsEmpty cbCached "''/w/skills''" "Unix 100 0"]
  have r1: "sourceFilesChangedLocked fsSkills cbCached = spec_isStale fsSkills cbCached"
    using t1 by blast
  have r2: "sourceFilesChangedLocked fsSkills cbW = (True, [])"
    using t2 z by blast
  have r3: "skillFilesModifiedSince fsEmpty ''/w/skills'' (Unix 100 0) = (False, [])"
    using t3 e by blast
  have r4: "skillFilesModifiedSince fsSkills ''/w/skills'' (Unix 100 0)
              = (True, [EvStat ''/w/skills/a/SKILL.md'', EvStat ''/w/skills/b/doc.md''])"
    using t1 m by simp
  have r5: "fst (WalkDir fsSkills ''/w/skills'' (modifiedFn fsSkills (Unix 100 0)) (False, []))
              = (if fst (skillFilesModifiedSince fsSkills ''/w/skills'' (Unix 100 0))
                 then Some ErrWalkStop else None)"
    using t1 by blast
  show ?thesis
    unfolding r1 st r2 r3 r5 r4 by simp
qed

section \<open>Properties of the message composer\<close>

lemma BuildMessages_shape:
  "fst (BuildMessages fs r cb history summary currentMessage media channel chatID) =
     \<lparr>Role = ''system'',
      Content = strings_Join
                  ([fst (BuildSystemPromptWithCache fs cb), buildDynamicContext r channel chatID]
                   @ (if summary \<noteq> '''' then [summaryPrefix @ summary] else []))
                  promptSeparator,
      SystemParts =
        [\<lparr>Type = ''text'', Text = fst (BuildSystemPromptWithCache fs cb),
          CacheControl = Some (Mk_CacheControl ''ephemeral'')\<rparr>,
         \<lparr>Type = ''text'', Text = buildDynamicContext r channel chatID, CacheControl = None\<rparr>]
        @ (if summary \<noteq> '''' then
             [\<lparr>Type = ''text'', Text = summaryPrefix @ summary, CacheControl = None\<rparr>]
           else []),
      ToolCalls = [], ToolCallID = ''''\<rparr>
     # sanitizeHistoryForProvider history
     @ (if TrimSpace currentMessage \<noteq> '''' then
          [\<lparr>Role = ''user'', Content = currentMessage, SystemParts = [], ToolCalls = [],
            ToolCallID = ''''\<rparr>]
        else [])"
  by (simp add: BuildMessages_def Let_def split: prod.splits)

lemma filter_system_sanitize:
  "filter (\<lambda>m. Role m = ''system'') (sanitizeHistoryForProvider h) = []"
  using sanitize_no_system [of h] by (simp add: filter_empty_conv)

text \<open>
  C1. Whatever the history, the summary, the current message, the media, the channel and
  the chat identifier are, the list \<open>BuildMessages\<close> returns holds exactly one message
  of role system, that message is its first element, and when the current message is not
  empty after \<open>strings.TrimSpace\<close> its last element has role user. System messages of
  the history do not count: the sanitizer drops them.
\<close>

theorem BuildMessages_single_system:
  "length (filter (\<lambda>m. Role m = ''system'')
            (fst (BuildMessages fs r cb history summary currentMessage media channel chatID))) = 1
   \<and> fst (BuildMessages fs r cb history summary currentMessage media channel chatID) \<noteq> []
   \<and> Role (hd (fst (BuildMessages fs r cb history summary currentMessage media channel chatID)))
        = ''system''
   \<and> (TrimSpace currentMessage \<noteq> '''' \<longrightarrow>
        Role (last (fst (BuildMessages fs r cb history summary currentMessage media channel chatID)))
          = ''user'')"
  by (simp add: BuildMessages_shape filter_system_sanitize)

lemma TrimSpace_hello: "TrimSpace ''hello'' = ''hello''"
  by (simp add: TrimSpace_def trimSeqs.simps spaceSeqs_def)

lemma TrimSpace_blank: "TrimSpace [CHR 0x20, CHR 0x0A, CHR 0xE2, CHR 0x80, CHR 0x83, CHR 0x09] = ''''"
  by (simp add: TrimSpace_def trimSeqs.simps spaceSeqs_def)

lemma TrimSpace_mid: "TrimSpace ''  a b  '' = ''a b''"
  by (simp add: TrimSpace_def trimSeqs.simps spaceSeqs_def)

theorem BuildMessages_single_system_witness:
  "TrimSpace ''hello'' \<noteq> ''''
   \<and> Role (last (fst (BuildMessages fsSkills rtExample cbW historyExample ''earlier talk''
                        ''hello'' [] ''cli'' ''chat1''))) = ''user''
   \<and> length (filter (\<lambda>m. Role m = ''system'')
        (fst (BuildMessages fsSkills rtExample cbW historyExample ''earlier talk''
                ''hello'' [] ''cli'' ''chat1''))) = 1"
  using BuildMessages_single_system [of fsSkills rtExample cbW historyExample "''earlier talk''"
          "''hello''" "[]" "''cli''" "''chat1''"]
  by (simp add: TrimSpace_hello)

text \<open>
  C8. The system message of the list \<open>BuildMessages\<close> returns carries in
  \<open>SystemParts\<close> the static block with the cache-control hint "ephemeral", then the
  dynamic block without a hint, then the summary block, without a hint, exactly when the
  summary is not empty; no block but the first has a hint; and \<open>Content\<close> is the texts
  of these blocks joined by the separator of two line feeds, three hyphens and two line
  feeds.
\<close>

theorem BuildMessages_system_parts:
  "Role (hd (fst (BuildMessages fs r cb history summary currentMessage media channel chatID)))
     = ''system''
   \<and> SystemParts (hd (fst (BuildMessages fs r cb history summary currentMessage media channel chatID)))
       = [\<lparr>Type = ''text'', Text = fst (BuildSystemPromptWithCache fs cb),
           CacheControl = Some (Mk_CacheControl ''ephemeral'')\<rparr>,
          \<lparr>Type = ''text'', Text = buildDynamicContext r channel chatID, CacheControl = None\<rparr>]
         @ (if summary \<noteq> '''' then
              [\<lparr>Type = ''text'', Text = summaryPrefix @ summary, CacheControl = None\<rparr>]
            else [])
   \<and> (\<forall>b \<in> set (tl (SystemParts
          (hd (fst (BuildMessages fs r cb history summary currentMessage media channel chatID))))).
         CacheControl b = None)
   \<and> length (SystemParts
        (hd (fst (BuildMessages fs r cb history summary currentMessage media channel chatID))))
       = (if summary \<noteq> '''' then 3 else 2)
   \<and> Content (hd (fst (BuildMessages fs r cb history summary currentMessage media channel chatID)))
       = strings_Join
           (map Text (SystemParts
              (hd (fst (BuildMessages fs r cb history summary currentMessage media channel chatID)))))
           promptSeparator
   \<and> promptSeparator = ''\<newline>\<newline>---\<newline>\<newline>''"
  by (simp add: BuildMessages_shape promptSeparator_def)

theorem BuildMessages_system_parts_witness:
  "map CacheControl
     (SystemParts (hd (fst (BuildMessages fsSkills rtExample cbW historyExample ''earlier talk''
                              ''hello'' [] ''cli'' ''chat1''))))
     = [Some (Mk_CacheControl ''ephemeral''), None, None]
   \<and> map CacheControl
     (SystemParts (hd (fst (BuildMessages fsSkills rtExample cbW historyExample ''''
                              ''hello'' [] ''cli'' ''chat1''))))
     = [Some (Mk_CacheControl ''ephemeral''), None]"
  using BuildMessages_system_parts [of fsSkills rtExample cbW historyExample "''earlier talk''"
          "''hello''" "[]" "''cli''" "''chat1''"]
        BuildMessages_system_parts [of fsSkills rtExample cbW historyExample "''''"
          "''hello''" "[]" "''cli''" "''chat1''"]
  by simp

section \<open>Properties of the skills loader\<close>

text \<open>The automaton accepts exactly the language of the pattern.\<close>

lemma dash_not_alnum: "\<not> isAlnum (CHR ''-'')"
  by (simp add: isAlnum_def)

lemma name_automaton_sound:
  "nameStart s \<Longrightarrow> \<exists>g gs. alnumRun g \<and> list_all alnumRun gs \<and> s = g @ dashed gs"
  "nameRest s \<Longrightarrow> \<exists>g gs. list_all isAlnum g \<and> list_all alnumRun gs \<and> s = g @ dashed gs"
proof (induction s and s rule: nameStart_nameRest.induct)
  case 1
  then show ?case by simp
next
  case (2 c cs)
  then obtain g gs where "list_all isAlnum g" "list_all alnumRun gs" "cs = g @ dashed gs"
    by auto
  with 2 have "alnumRun (c # g) \<and> list_all alnumRun gs \<and> c # cs = (c # g) @ dashed gs"
    by (simp add: alnumRun_def)
  then show ?case by blast
next
  case 3
  have "list_all isAlnum [] \<and> list_all alnumRun [] \<and> [] = [] @ dashed []"
    by (simp add: dashed_def)
  then show ?case by blast
next
  case (4 c cs)
  show ?case
  proof (cases "isAlnum c")
    case True
    with 4 obtain g gs where "list_all isAlnum g" "list_all alnumRun gs" "cs = g @ dashed gs"
      by auto
    with True have "list_all isAlnum (c # g) \<and> list_all alnumRun gs \<and> c # cs = (c # g) @ dashed gs"
      by simp
    then show ?thesis by blast
  next
    case False
    with 4 have c: "c = CHR ''-''" and "nameStart cs" by simp_all
    with 4 False obtain g gs where "alnumRun g" "list_all alnumRun gs" "cs = g @ dashed gs"
      by auto
    with c have "list_all isAlnum [] \<and> list_all alnumRun (g # gs) \<and> c # cs = [] @ dashed (g # gs)"
      by (simp add: dashed_def)
    then show ?thesis by blast
  qed
qed

lemma nameRest_run: "list_all isAlnum g \<Longrightarrow> nameRest r \<Longrightarrow> nameRest (g @ r)"
  by (induction g) simp_all

lemma nameRest_dashed: "list_all alnumRun gs \<Longrightarrow> nameRest (dashed gs)"
proof (induction gs)
  case Nil
  then show ?case by (simp add: dashed_def)
next
  case (Cons h hs)
  then obtain c h' where h: "h = c # h'" "isAlnum c" "list_all isAlnum h'"
    by (cases h) (auto simp: alnumRun_def)
  from Cons have "nameRest (dashed hs)" by simp
  with h have "nameRest (h' @ dashed hs)" by (simp add: nameRest_run)
  with h show ?case by (simp add: dashed_def dash_not_alnum)
qed

lemma namePattern_groups:
  "namePattern_MatchString s
     = (\<exists>g gs. alnumRun g \<and> list_all alnumRun gs \<and> s = g @ dashed gs)"
proof
  assume "namePattern_MatchString s"
  then have "nameStart s" by (simp add: namePattern_MatchString_def)
  then show "\<exists>g gs. alnumRun g \<and> list_all alnumRun gs \<and> s = g @ dashed gs"
    by (rule name_automaton_sound(1))
next
  assume "\<exists>g gs. alnumRun g \<and> list_all alnumRun gs \<and> s = g @ dashed gs"
  then obtain g gs where g: "alnumRun g" "list_all alnumRun gs" "s = g @ dashed gs" by blast
  then obtain c g' where c: "g = c # g'" "isAlnum c" "list_all isAlnum g'"
    by (cases g) (auto simp: alnumRun_def)
  have "nameRest (g' @ dashed gs)"
    using c(3) g(2) by (simp add: nameRest_run nameRest_dashed)
  with c g(3) show "namePattern_MatchString s"
    by (simp add: namePattern_MatchString_def)
qed

lemma validate_malformed: "(validate info \<noteq> []) = malformed info"
  by (auto simp: validate_def malformed_def MaxNameLength_def MaxDescriptionLength_def)

lemma addSkill_stepInfo:
  "addSkill fs dir source d st =
     (case candidateOf fs dir source d of None \<Rightarrow> st | Some info \<Rightarrow> stepInfo info st)"
  by (cases "skillMetadata fs (filepath_Join [dir, entry_Name d, ''SKILL.md''])")
     (simp_all add: addSkill_def candidateOf_def stepInfo_def warningOf_def Let_def)

lemma addSkillsLoop_fold:
  "addSkillsLoop fs dir source ds st
     = fold stepInfo (List.map_filter (candidateOf fs dir source) ds) st"
  by (induction ds arbitrary: st)
     (simp_all add: addSkill_stepInfo List.map_filter_simps split: option.splits)

lemma addSkills_fold:
  "addSkills fs dir source st = fold stepInfo (candidates fs dir source) st"
  by (simp add: addSkills_def candidates_def addSkillsLoop_fold List.map_filter_simps
        split: option.splits)

lemma ListSkillsState_fold:
  "ListSkillsState fs cb
     = fold stepInfo (discovered fs cb) \<lparr>skills = [], seen = Map.empty, warnings = []\<rparr>"
  by (simp add: ListSkillsState_def discovered_def addSkills_fold)

lemma fold_stepInfo:
  "(\<And>n. lookupBool (seen st) n = (n \<in> S)) \<Longrightarrow>
   skills (fold stepInfo infos st)
     = skills st @ firstByName S (filter (\<lambda>i. \<not> malformed i) infos)
   \<and> warnings (fold stepInfo infos st)
     = warnings st @ map warningOf (filter malformed infos)"
proof (induction infos arbitrary: st S)
  case Nil
  then show ?case by simp
next
  case (Cons i infos)
  show ?case
  proof (cases "malformed i")
    case True
    then have s: "stepInfo i st = st\<lparr>warnings := warnings st @ [warningOf i]\<rparr>"
      by (simp add: stepInfo_def validate_malformed)
    have "\<And>n. lookupBool (seen (stepInfo i st)) n = (n \<in> S)"
      using Cons.prems by (simp add: s)
    from Cons.IH [OF this] True show ?thesis by (simp add: s)
  next
    case False
    show ?thesis
    proof (cases "Name i \<in> S")
      case True
      then have s: "stepInfo i st = st"
        using False Cons.prems by (simp add: stepInfo_def validate_malformed)
      from Cons.IH [of st S] Cons.prems False True show ?thesis by (simp add: s)
    next
      case n: False
      then have s: "stepInfo i st = st\<lparr>seen := (seen st)(Name i \<mapsto> True), skills := skills st @ [i]\<rparr>"
        using False Cons.prems by (simp add: stepInfo_def validate_malformed)
      have "\<And>n. lookupBool (seen (stepInfo i st)) n = (n \<in> insert (Name i) S)"
        using Cons.prems by (auto simp: s lookupBool_def)
      from Cons.IH [OF this] False n show ?thesis by (simp add: s)
    qed
  qed
qed

lemma ListSkills_spec:
  "ListSkills fs cb = firstByName {} (filter (\<lambda>i. \<not> malformed i) (discovered fs cb))"
  and ListSkillsWarnings_spec:
  "ListSkillsWarnings fs cb = map warningOf (filter malformed (discovered fs cb))"
  using fold_stepInfo [of "\<lparr>skills = [], seen = Map.empty, warnings = []\<rparr>" "{}" "discovered fs cb"]
  by (simp_all add: ListSkills_def ListSkillsWarnings_def ListSkillsState_fold lookupBool_def)

lemma firstByName_subset: "set (firstByName S xs) \<subseteq> set xs"
  by (induction xs arbitrary: S) auto
























section \<open>Properties of the cache controller\<close>

subsection \<open>The prompt depends on the configuration only\<close>

lemma sameConfig_refl: "sameConfig cb cb"
  by (simp add: sameConfig_def)

lemma sameConfig_update:
  "sameConfig cb (cb\<lparr>cachedSystemPrompt := p, cachedAt := t, existedAtCache := m\<rparr>)"
  by (simp add: sameConfig_def)

lemma sameConfig_trans: "sameConfig a b \<Longrightarrow> sameConfig b c \<Longrightarrow> sameConfig a c"
  by (simp add: sameConfig_def)

lemma getIdentity_config: "sameConfig cb cb' \<Longrightarrow> getIdentity fs cb' = getIdentity fs cb"
  by (simp add: sameConfig_def getIdentity_def)

lemma bootstrapLoop_config:
  "sameConfig cb cb' \<Longrightarrow> bootstrapLoop fs cb' names sb = bootstrapLoop fs cb names sb"
  by (induction names arbitrary: sb) (simp_all add: sameConfig_def split: option.splits)

lemma ListSkills_config: "sameConfig cb cb' \<Longrightarrow> ListSkills fs cb' = ListSkills fs cb"
  by (simp add: sameConfig_def ListSkills_def ListSkillsState_def)

lemma LoadBootstrapFiles_config:
  "sameConfig cb cb' \<Longrightarrow> LoadBootstrapFiles fs cb' = LoadBootstrapFiles fs cb"
  unfolding LoadBootstrapFiles_def by (rule bootstrapLoop_config)

lemma BuildSkillsSummary_config:
  "sameConfig cb cb' \<Longrightarrow> BuildSkillsSummary fs cb' = BuildSkillsSummary fs cb"
  by (simp add: BuildSkillsSummary_def ListSkills_config)

lemma promptParts_config: "sameConfig cb cb' \<Longrightarrow> promptParts fs cb' = promptParts fs cb"
  unfolding promptParts_def
  by (simp only: getIdentity_config LoadBootstrapFiles_config BuildSkillsSummary_config)

lemma BuildSystemPrompt_config:
  "sameConfig cb cb' \<Longrightarrow> BuildSystemPrompt fs cb' = BuildSystemPrompt fs cb"
  by (simp add: BuildSystemPrompt_def promptParts_config)

lemma sourcePaths_config: "sameConfig cb cb' \<Longrightarrow> sourcePaths cb' = sourcePaths cb"
  by (simp add: sameConfig_def sourcePaths_def)

lemma getter_config: "sameConfig cb (snd (BuildSystemPromptWithCache fs cb))"
  by (simp add: BuildSystemPromptWithCache_def sameConfig_def Let_def)

subsection \<open>The prompt is never empty\<close>

lemma getIdentity_nonempty: "getIdentity fs cb \<noteq> ''''"
  by (simp add: getIdentity_def Let_def)

lemma strings_Join_nonempty: "x \<noteq> [] \<Longrightarrow> strings_Join (x # xs) sep \<noteq> []"
  by (cases xs) simp_all

lemma promptParts_head: "\<exists>rest. promptParts fs cb = getIdentity fs cb # rest"
  unfolding promptParts_def Let_def by (simp split: if_splits)

lemma BuildSystemPrompt_nonempty: "BuildSystemPrompt fs cb \<noteq> ''''"
proof -
  obtain rest where "promptParts fs cb = getIdentity fs cb # rest"
    using promptParts_head by blast
  then show ?thesis
    by (simp add: BuildSystemPrompt_def strings_Join_nonempty getIdentity_nonempty)
qed

subsection \<open>The detector reads the watched paths only\<close>

lemma spec_isStale_watched:
  assumes w: "sameWatched fs cb fs'" and c: "sameConfig cb cb'"
  shows "spec_isStale fs' cb' = spec_isStale fs cb'"
proof -
  let ?sd = "filepath_Join [workspace cb, ''skills'']"
  have ws: "workspace cb' = workspace cb" using c by (simp add: sameConfig_def)
  have sp: "sourcePaths cb' = sourcePaths cb" using c by (rule sourcePaths_config)
  have l: "lstatTree fs' ?sd = lstatTree fs ?sd" using w by (simp add: sameWatched_def)
  have st: "\<And>p. p \<in> set (watchedPaths fs cb) \<Longrightarrow> stat fs' p = stat fs p"
    using w by (simp add: sameWatched_def list_all_iff)
  have k: "skillsFiles fs' ?sd = skillsFiles fs ?sd"
    by (simp add: skillsFiles_def l)
  have f: "\<And>p. p \<in> set (sourcePaths cb @ [?sd]) \<Longrightarrow>
             fileChangedSince fs' cb' p = fileChangedSince fs cb' p"
  proof -
    fix p assume "p \<in> set (sourcePaths cb @ [?sd])"
    then have "p \<in> set (watchedPaths fs cb)" by (auto simp: watchedPaths_def)
    then have e: "stat fs' p = stat fs p" by (rule st)
    show "fileChangedSince fs' cb' p = fileChangedSince fs cb' p"
      unfolding fileChangedSince_def e by simp
  qed
  have g: "\<And>p. p \<in> set (skillsFiles fs ?sd) \<Longrightarrow>
             spec_walkCheck fs' (cachedAt cb') p = spec_walkCheck fs (cachedAt cb') p"
  proof -
    fix p assume "p \<in> set (skillsFiles fs ?sd)"
    then have "p \<in> set (watchedPaths fs cb)" by (simp add: watchedPaths_def)
    then have e: "stat fs' p = stat fs p" by (rule st)
    show "spec_walkCheck fs' (cachedAt cb') p = spec_walkCheck fs (cachedAt cb') p"
      unfolding spec_walkCheck_def e by simp
  qed
  have m1: "map (fileChangedSince fs' cb') (sourcePaths cb @ [?sd])
              = map (fileChangedSince fs cb') (sourcePaths cb @ [?sd])"
    using f by (simp only: map_eq_conv) blast
  have m2: "map (spec_walkCheck fs' (cachedAt cb')) (skillsFiles fs ?sd)
              = map (spec_walkCheck fs (cachedAt cb')) (skillsFiles fs ?sd)"
    using g by (simp only: map_eq_conv) blast
  have "map (fileChangedSince fs' cb') (sourcePaths cb) @ [fileChangedSince fs' cb' ?sd]
          @ map (spec_walkCheck fs' (cachedAt cb')) (skillsFiles fs' ?sd)
        = map (fileChangedSince fs cb') (sourcePaths cb) @ [fileChangedSince fs cb' ?sd]
          @ map (spec_walkCheck fs (cachedAt cb')) (skillsFiles fs ?sd)"
    using m1 m2 by (simp add: k)
  then show ?thesis
    by (simp only: spec_isStale_def ws sp)
qed

subsection \<open>A fresh baseline is not stale\<close>

lemma firstTrue_all_False:
  "\<forall>c \<in> set cs. \<not> fst c \<Longrightarrow> fst (firstTrue cs) = False"
  by (induction cs rule: firstTrue.induct) (auto split: prod.splits)

lemma mtimesOf_mem:
  "p \<in> set ps \<Longrightarrow> stat fs p = Some info \<Longrightarrow> ModTime info \<in> set (mtimesOf fs ps)"
  by (induction ps) (auto split: option.splits)

lemma sentinel_ge: "(m::Time) \<le> (if IsZero m then Unix 1 0 else m)"
  by (simp add: IsZero_def Unix_def zeroTime_def)

lemma baseline_bounds:
  assumes "p \<in> set (watchedPaths fs cb)" and "stat fs p = Some info"
  shows "\<not> After (ModTime info) (maxMtime (buildCacheBaseline fs cb))"
proof -
  let ?obs = "observedMtimes fs cb"
  let ?m = "Max (set (zeroTime # ?obs))"
  have "ModTime info \<in> set ?obs"
    using assms by (simp add: observedMtimes_def mtimesOf_mem)
  then have le: "ModTime info \<le> ?m" by simp
  have "?m \<le> (if IsZero ?m then Unix 1 0 else ?m)"
    by (rule sentinel_ge)
  then have "?m \<le> maxMtime (buildCacheBaseline fs cb)"
    by (simp only: buildCacheBaseline_maxMtime Let_def)
  with le have "ModTime info \<le> maxMtime (buildCacheBaseline fs cb)"
    by (rule order_trans)
  then show ?thesis by (simp add: After_def)
qed

lemma fresh_after_build:
  assumes cfg: "sameConfig cb cb'"
      and at: "cachedAt cb' = maxMtime (buildCacheBaseline fs cb)"
      and ex: "existedAtCache cb' = Some (existed (buildCacheBaseline fs cb))"
  shows "fst (sourceFilesChangedLocked fs cb') = False"
proof -
  let ?sd = "filepath_Join [workspace cb, ''skills'']"
  let ?b = "buildCacheBaseline fs cb"
  have ws: "workspace cb' = workspace cb" using cfg by (simp add: sameConfig_def)
  have sp: "sourcePaths cb' = sourcePaths cb" using cfg by (rule sourcePaths_config)
  have nz: "\<not> IsZero (cachedAt cb')"
    by (simp add: at buildCacheBaseline_maxMtime Let_def IsZero_def Unix_def zeroTime_def)
  have fc: "\<And>p. p \<in> set (sourcePaths cb @ [?sd]) \<Longrightarrow> \<not> fst (fileChangedSince fs cb' p)"
  proof -
    fix p assume p: "p \<in> set (sourcePaths cb @ [?sd])"
    then have e: "lookupBool (existed ?b) p = (stat fs p \<noteq> None)"
      by (simp add: lookupBool_def buildCacheBaseline_existed)
    have w: "p \<in> set (watchedPaths fs cb)" using p by (auto simp: watchedPaths_def)
    show "\<not> fst (fileChangedSince fs cb' p)"
    proof (cases "stat fs p")
      case None
      with e show ?thesis by (simp add: fileChangedSince_def ex)
    next
      case (Some info)
      with e baseline_bounds [OF w Some] show ?thesis
        by (simp add: fileChangedSince_def ex at)
    qed
  qed
  have wc: "\<And>p. p \<in> set (skillsFiles fs ?sd) \<Longrightarrow> \<not> fst (spec_walkCheck fs (cachedAt cb') p)"
  proof -
    fix p assume "p \<in> set (skillsFiles fs ?sd)"
    then have w: "p \<in> set (watchedPaths fs cb)" by (simp add: watchedPaths_def)
    show "\<not> fst (spec_walkCheck fs (cachedAt cb') p)"
      using baseline_bounds [OF w] by (cases "stat fs p") (simp_all add: spec_walkCheck_def at)
  qed
  have "fst (spec_isStale fs cb') = False"
    unfolding spec_isStale_def using nz
    by (simp only: if_False ws sp)
       (rule firstTrue_all_False, use fc wc in auto)
  then show ?thesis by (simp add: sourceFilesChangedLocked_spec)
qed

lemma getter_result:
  "fst (BuildSystemPromptWithCache fs cb)
     = (if cachedSystemPrompt cb \<noteq> '''' \<and> \<not> fst (sourceFilesChangedLocked fs cb)
        then cachedSystemPrompt cb else BuildSystemPrompt fs cb)"
  by (simp add: BuildSystemPromptWithCache_def Let_def)

lemma getter_cached:
  "cachedSystemPrompt (snd (BuildSystemPromptWithCache fs cb)) = fst (BuildSystemPromptWithCache fs cb)"
  by (simp add: BuildSystemPromptWithCache_def Let_def)

lemma getter_nonempty: "fst (BuildSystemPromptWithCache fs cb) \<noteq> ''''"
  by (simp add: getter_result BuildSystemPrompt_nonempty)

lemma getter_fresh:
  "fst (sourceFilesChangedLocked fs (snd (BuildSystemPromptWithCache fs cb))) = False"
proof (cases "cachedSystemPrompt cb \<noteq> '''' \<and> \<not> fst (sourceFilesChangedLocked fs cb)")
  case True
  then show ?thesis by (simp add: BuildSystemPromptWithCache_def)
next
  case False
  let ?cb' = "cb\<lparr>cachedSystemPrompt := BuildSystemPrompt fs cb,
                 cachedAt := maxMtime (buildCacheBaseline fs cb),
                 existedAtCache := Some (existed (buildCacheBaseline fs cb))\<rparr>"
  have s: "snd (BuildSystemPromptWithCache fs cb) = ?cb'"
    using False by (auto simp: BuildSystemPromptWithCache_def Let_def)
  have "fst (sourceFilesChangedLocked fs ?cb') = False"
    by (rule fresh_after_build) (simp_all add: sameConfig_def)
  with s show ?thesis by simp
qed

text \<open>Once a call has returned, a call in an environment that agrees on the watched paths
  returns the cached text and leaves the cache as it is.\<close>

lemma getter_stable:
  assumes "sameWatched fs cb fs'"
  shows "BuildSystemPromptWithCache fs' (snd (BuildSystemPromptWithCache fs cb))
           = (fst (BuildSystemPromptWithCache fs cb), snd (BuildSystemPromptWithCache fs cb))"
proof -
  let ?cb1 = "snd (BuildSystemPromptWithCache fs cb)"
  have "spec_isStale fs' ?cb1 = spec_isStale fs ?cb1"
    using assms getter_config by (rule spec_isStale_watched)
  then have "fst (sourceFilesChangedLocked fs' ?cb1) = fst (sourceFilesChangedLocked fs ?cb1)"
    by (simp add: sourceFilesChangedLocked_spec)
  then have "\<not> fst (sourceFilesChangedLocked fs' ?cb1)" by (simp add: getter_fresh)
  moreover have "cachedSystemPrompt ?cb1 \<noteq> ''''"
    by (simp add: getter_cached getter_nonempty)
  ultimately show ?thesis
    by (simp add: BuildSystemPromptWithCache_def [of fs' ?cb1] getter_cached)
qed

lemma getPrompts_after_first:
  "list_all (sameWatched fs cb) fss \<Longrightarrow>
   getPrompts fss (snd (BuildSystemPromptWithCache fs cb))
     = replicate (length fss) (fst (BuildSystemPromptWithCache fs cb))"
proof (induction fss)
  case Nil
  show ?case by simp
next
  case (Cons f fss)
  from Cons.prems have f: "sameWatched fs cb f" and rest: "list_all (sameWatched fs cb) fss"
    by simp_all
  have ih: "getPrompts fss (snd (BuildSystemPromptWithCache fs cb))
          = replicate (length fss) (fst (BuildSystemPromptWithCache fs cb))"
    by (rule Cons.IH [OF rest])
  have st: "BuildSystemPromptWithCache f (snd (BuildSystemPromptWithCache fs cb))
           = (fst (BuildSystemPromptWithCache fs cb), snd (BuildSystemPromptWithCache fs cb))"
    by (rule getter_stable [OF f])
  have "getPrompts (f # fss) (snd (BuildSystemPromptWithCache fs cb))
          = fst (BuildSystemPromptWithCache fs cb)
              # getPrompts fss (snd (BuildSystemPromptWithCache fs cb))"
    by (simp only: getPrompts.simps st prod.case)
  then show ?case by (simp only: ih length_Cons replicate_Suc)
qed

lemma sameWatched_refl: "sameWatched fs cb fs"
  by (simp add: sameWatched_def list_all_iff)

lemma sublist_sep:
  assumes m: "sublist m (x @ sep @ y)" and d: "set m \<inter> set sep = {}"
      and s: "sep \<noteq> []" and n: "m \<noteq> []"
  shows "sublist m x \<or> sublist m y"
proof -
  from m consider
      (left) "sublist m x"
    | (right) "sublist m (sep @ y)"
    | (split) m1 m2 where "m = m1 @ m2" "suffix m1 x" "prefix m2 (sep @ y)"
    by (auto simp: sublist_append)
  then show ?thesis
  proof cases
    case left
    then show ?thesis by simp
  next
    case right
    then consider
        (in_sep) "sublist m sep"
      | (in_y) "sublist m y"
      | (split2) m1 m2 where "m = m1 @ m2" "suffix m1 sep" "prefix m2 y"
      by (auto simp: sublist_append)
    then show ?thesis
    proof cases
      case in_sep
      then have "set m \<subseteq> set sep" by (rule set_mono_sublist)
      with d n show ?thesis by (cases m) auto
    next
      case in_y
      then show ?thesis by simp
    next
      case split2
      from split2(2) have "set m1 \<subseteq> set sep" by (rule set_mono_suffix)
      moreover have "set m1 \<subseteq> set m" using split2(1) by auto
      ultimately have "m1 = []" using d by (cases m1) auto
      then have "m = m2" using split2(1) by simp
      with split2(3) show ?thesis by auto
    qed
  next
    case split
    show ?thesis
    proof (cases m2)
      case Nil
      with split show ?thesis by auto
    next
      case (Cons a m2')
      obtain b sep' where sep: "sep = b # sep'" using s by (cases sep) auto
      from split(3) Cons sep have "a = b" by simp
      then have "a \<in> set sep" using sep by simp
      moreover have "a \<in> set m" using split(1) Cons by simp
      ultimately show ?thesis using d by auto
    qed
  qed
qed

lemma sublist_strings_Join:
  "sublist m (strings_Join parts sep) \<Longrightarrow> set m \<inter> set sep = {} \<Longrightarrow> sep \<noteq> [] \<Longrightarrow> m \<noteq> []
   \<Longrightarrow> \<exists>p \<in> set parts. sublist m p"
proof (induction parts sep rule: strings_Join.induct)
  case (1 sep)
  then show ?case by simp
next
  case (2 x sep)
  then show ?case by simp
next
  case (3 x y ys sep)
  from "3.prems"(1) have "sublist m (x @ sep @ strings_Join (y # ys) sep)" by simp
  from sublist_sep [OF this "3.prems"(2,3,4)]
  show ?case
  proof
    assume "sublist m x"
    then show ?thesis by simp
  next
    assume "sublist m (strings_Join (y # ys) sep)"
    from "3.IH" [OF this "3.prems"(2,3,4)] show ?thesis by auto
  qed
qed

lemma marker_in_parts:
  assumes "Contains (BuildSystemPrompt fs cb) timeMarker"
  shows "\<exists>part \<in> set (promptParts fs cb). Contains part timeMarker"
proof -
  have d: "set timeMarker \<inter> set promptSeparator = {}"
    by (simp add: timeMarker_def promptSeparator_def)
  have s: "promptSeparator \<noteq> []" by (simp add: promptSeparator_def)
  have n: "timeMarker \<noteq> []" by (simp add: timeMarker_def)
  have "sublist timeMarker (strings_Join (promptParts fs cb) promptSeparator)"
    using assms by (simp add: Contains_def BuildSystemPrompt_def)
  from sublist_strings_Join [OF this d s n] show ?thesis
    by (simp add: Contains_def)
qed

lemma reachable_cached:
  "reachable fs cb \<Longrightarrow>
   cachedSystemPrompt cb = '''' \<or> cachedSystemPrompt cb = BuildSystemPrompt fs cb"
proof (induction rule: reachable.induct)
  case (reach_new cb)
  then show ?case by simp
next
  case (reach_get cb)
  have "BuildSystemPrompt fs (snd (BuildSystemPromptWithCache fs cb)) = BuildSystemPrompt fs cb"
    by (rule BuildSystemPrompt_config) (rule getter_config)
  with reach_get.IH show ?case
    by (auto simp: getter_cached getter_result)
next
  case (reach_invalidate cb)
  then show ?case by (simp add: InvalidateCache_def)
qed

lemma cbW_fields:
  "workspace cbW = ''/w''" "workspaceSkills cbW = ''/w/skills''"
  "globalSkills cbW = ''/home/u/.picoclaw/skills''" "builtinSkills cbW = ''/cwd/skills''"
  "cachedSystemPrompt cbW = ''''"
  by (simp_all add: cbW_def NewContextBuilder_def filepath_Join.simps)

lemma fsMarker_parts:
  "promptParts fsMarker cbW =
     [getIdentity fsMarker cbW,
      ''## AGENTS.md\<newline>\<newline>'' @ timeMarker @ ''\<newline>is shown above.\<newline>\<newline>'']"
proof -
  have b: "LoadBootstrapFiles fsMarker cbW =
             ''## AGENTS.md\<newline>\<newline>'' @ timeMarker @ ''\<newline>is shown above.\<newline>\<newline>''"
    by (simp add: LoadBootstrapFiles_def cbW_fields filepath_Join.simps fsMarker_def fsEmpty_def
          timeMarker_def)
  have s: "BuildSkillsSummary fsMarker cbW = ''''"
    by (simp add: BuildSkillsSummary_def ListSkills_def ListSkillsState_def addSkills_def
          fsMarker_def fsEmpty_def)
  have m: "memoryContext fsMarker = ''''"
    by (simp add: fsMarker_def fsEmpty_def)
  show ?thesis
    unfolding promptParts_def Let_def b s m by (simp add: timeMarker_def)
qed

subsection \<open>The code's own text never holds the time marker\<close>

text \<open>
  The marker has no line break and none of the characters \<open>- / : < > & ;\<close>, so an
  occurrence cannot reach across one of them; and it starts with \<open>#\<close>, so no occurrence
  starts at another character. With these rules the fixed text of the prompt is read from
  left to right.
\<close>

lemma tm_ne: "timeMarker \<noteq> []"
  by (simp add: timeMarker_def)

lemma tm_barrier:
  assumes c: "c \<notin> set ''## Current Time''"
  shows "sublist timeMarker (x @ c # y) = (sublist timeMarker x \<or> sublist timeMarker y)"
proof
  assume "sublist timeMarker (x @ c # y)"
  then have "sublist timeMarker (x @ [c] @ y)" by simp
  then show "sublist timeMarker x \<or> sublist timeMarker y"
    by (rule sublist_sep) (use c in \<open>simp_all add: timeMarker_def\<close>)
next
  assume "sublist timeMarker x \<or> sublist timeMarker y"
  then show "sublist timeMarker (x @ c # y)"
    by (auto simp: sublist_append sublist_Cons_right)
qed

lemma tm_skip:
  "c \<noteq> CHR ''#'' \<Longrightarrow> sublist timeMarker (c # y) = sublist timeMarker y"
  by (simp add: sublist_Cons_right timeMarker_def)

lemma tm_skip_bits:
  "sublist timeMarker (Char False b1 b2 b3 b4 b5 b6 b7 # y) = sublist timeMarker y"
  "sublist timeMarker (Char b0 False b2 b3 b4 b5 b6 b7 # y) = sublist timeMarker y"
  "sublist timeMarker (Char b0 b1 True b3 b4 b5 b6 b7 # y) = sublist timeMarker y"
  "sublist timeMarker (Char b0 b1 b2 True b4 b5 b6 b7 # y) = sublist timeMarker y"
  "sublist timeMarker (Char b0 b1 b2 b3 True b5 b6 b7 # y) = sublist timeMarker y"
  "sublist timeMarker (Char b0 b1 b2 b3 b4 False b6 b7 # y) = sublist timeMarker y"
  "sublist timeMarker (Char b0 b1 b2 b3 b4 b5 True b7 # y) = sublist timeMarker y"
  "sublist timeMarker (Char b0 b1 b2 b3 b4 b5 b6 True # y) = sublist timeMarker y"
  by (simp_all add: tm_skip)

lemma tm_hash:
  "sublist timeMarker (CHR ''#'' # y) = (prefix ''# Current Time'' y \<or> sublist timeMarker y)"
  by (simp add: sublist_Cons_right timeMarker_def)

lemmas tm_scan = tm_barrier tm_skip_bits tm_hash tm_ne

lemma getIdentity_marker:
  "sublist timeMarker (getIdentity fs cb)
     = sublist timeMarker (Abs fs (filepath_Join [workspace cb]))"
  by (simp add: getIdentity_def Let_def tm_scan)

lemma LoadBootstrapFiles_marker:
  "sublist timeMarker (LoadBootstrapFiles fs cb) \<Longrightarrow>
   \<exists>d \<in> set (List.map_filter (\<lambda>filename. readFile fs (filepath_Join [workspace cb, filename]))
               [''AGENTS.md'', ''SOUL.md'', ''USER.md'', ''IDENTITY.md'']). sublist timeMarker d"
  by (auto simp: LoadBootstrapFiles_def tm_scan split: option.splits)

text \<open>\<open>strings.ReplaceAll\<close> of a character the marker has not, by a text between two such
  characters, does not make the marker.\<close>

lemma ReplaceAll1_prefix:
  "prefix m (ReplaceAll1 s old (a # rest)) \<Longrightarrow> old \<notin> set m \<Longrightarrow> a \<notin> set m \<Longrightarrow> prefix m s"
proof (induction s arbitrary: m)
  case Nil
  then show ?case by (simp add: ReplaceAll1_def)
next
  case (Cons x xs)
  show ?case
  proof (cases m)
    case Nil
    then show ?thesis by simp
  next
    case m: (Cons y ys)
    show ?thesis
    proof (cases "x = old")
      case True
      with Cons.prems m show ?thesis by (simp add: ReplaceAll1_def)
    next
      case False
      with Cons.prems(1) m have y: "y = x" and p: "prefix ys (ReplaceAll1 xs old (a # rest))"
        by (simp_all add: ReplaceAll1_def)
      from Cons.prems(2,3) m have "old \<notin> set ys" "a \<notin> set ys" by simp_all
      from Cons.IH [OF p this] y m show ?thesis by simp
    qed
  qed
qed

lemma ReplaceAll1_sublist:
  assumes o: "old \<notin> set m" and a: "a \<notin> set m" and z: "z \<notin> set m"
      and mid: "\<not> sublist m mid" and n: "m \<noteq> []"
  shows "sublist m (ReplaceAll1 s old (a # mid @ [z])) \<Longrightarrow> sublist m s"
proof (induction s)
  case Nil
  then show ?case by (simp add: ReplaceAll1_def)
next
  case (Cons x xs)
  let ?R = "ReplaceAll1 xs old (a # mid @ [z])"
  show ?case
  proof (cases "x = old")
    case True
    with Cons.prems have "sublist m ([] @ [a] @ (mid @ [z] @ ?R))"
      by (simp add: ReplaceAll1_def)
    then have "sublist m [] \<or> sublist m (mid @ [z] @ ?R)"
      by (rule sublist_sep) (use a n in simp_all)
    with n have "sublist m (mid @ [z] @ ?R)" by simp
    then have "sublist m mid \<or> sublist m ?R"
      by (rule sublist_sep) (use z n in simp_all)
    with mid have "sublist m ?R" by simp
    then have "sublist m xs" by (rule Cons.IH)
    then show ?thesis by (simp add: sublist_Cons_right)
  next
    case False
    with Cons.prems have "sublist m (x # ?R)" by (simp add: ReplaceAll1_def)
    then have "prefix m (x # ?R) \<or> sublist m ?R" by (simp add: sublist_Cons_right)
    then show ?thesis
    proof
      assume "prefix m (x # ?R)"
      then have "prefix m (ReplaceAll1 (x # xs) old (a # mid @ [z]))"
        using False by (simp add: ReplaceAll1_def)
      then have "prefix m (x # xs)" using o a by (rule ReplaceAll1_prefix)
      then show ?thesis by (simp add: sublist_Cons_right)
    next
      assume "sublist m ?R"
      then have "sublist m xs" by (rule Cons.IH)
      then show ?thesis by (simp add: sublist_Cons_right)
    qed
  qed
qed

lemma escapeXML_marker: "sublist timeMarker (escapeXML s) \<Longrightarrow> sublist timeMarker s"
proof -
  let ?s1 = "ReplaceAll1 s (CHR ''&'') ''&amp;''"
  let ?s2 = "ReplaceAll1 ?s1 (CHR ''<'') ''&lt;''"
  assume "sublist timeMarker (escapeXML s)"
  then have "sublist timeMarker (ReplaceAll1 ?s2 (CHR ''>'') (CHR ''&'' # ''gt'' @ '';''))"
    by (simp add: escapeXML_def)
  then have "sublist timeMarker ?s2"
    by (rule ReplaceAll1_sublist [rotated -1]) (simp_all add: timeMarker_def sublist_Cons_right)
  then have "sublist timeMarker (ReplaceAll1 ?s1 (CHR ''<'') (CHR ''&'' # ''lt'' @ '';''))"
    by simp
  then have "sublist timeMarker ?s1"
    by (rule ReplaceAll1_sublist [rotated -1]) (simp_all add: timeMarker_def sublist_Cons_right)
  then have "sublist timeMarker (ReplaceAll1 s (CHR ''&'') (CHR ''&'' # ''amp'' @ '';''))"
    by simp
  then show "sublist timeMarker s"
    by (rule ReplaceAll1_sublist [rotated -1]) (simp_all add: timeMarker_def sublist_Cons_right)
qed

lemma candidates_Source: "s \<in> set (candidates fs dir source) \<Longrightarrow> Source s = source"
  by (auto simp: candidates_def candidateOf_def List.map_filter_def
        split: if_splits option.splits)

lemma ListSkills_Source:
  assumes "s \<in> set (ListSkills fs cb)"
  shows "Source s = ''workspace'' \<or> Source s = ''global'' \<or> Source s = ''builtin''"
proof -
  have "set (ListSkills fs cb) \<subseteq> set (discovered fs cb)"
    using firstByName_subset [of "{}" "filter (\<lambda>i. \<not> malformed i) (discovered fs cb)"]
    by (auto simp: ListSkills_spec)
  with assms have "s \<in> set (discovered fs cb)" by auto
  then show ?thesis by (auto simp: discovered_def dest: candidates_Source)
qed

lemma skillLines_marker:
  assumes l: "l \<in> set (skillLines s)" and m: "sublist timeMarker l"
      and src: "Source s = ''workspace'' \<or> Source s = ''global'' \<or> Source s = ''builtin''"
  shows "sublist timeMarker (Name s) \<or> sublist timeMarker (Description s)
         \<or> sublist timeMarker (Path s)"
proof -
  have "sublist timeMarker (escapeXML (Name s)) \<or> sublist timeMarker (escapeXML (Description s))
        \<or> sublist timeMarker (escapeXML (Path s))"
    using l m src by (auto simp: skillLines_def tm_scan)
  then show ?thesis by (auto dest: escapeXML_marker)
qed

lemma BuildSkillsSummary_marker:
  assumes "sublist timeMarker (BuildSkillsSummary fs cb)"
  shows "\<exists>s \<in> set (ListSkills fs cb).
           sublist timeMarker (Name s) \<or> sublist timeMarker (Description s)
           \<or> sublist timeMarker (Path s)"
proof -
  let ?lines = "[''<skills>''] @ concat (map skillLines (ListSkills fs cb)) @ [''</skills>'']"
  have "sublist timeMarker (strings_Join ?lines ''\<newline>'')"
    using assms by (simp add: BuildSkillsSummary_def Let_def tm_ne split: if_splits)
  then have "\<exists>l \<in> set ?lines. sublist timeMarker l"
    by (rule sublist_strings_Join) (simp_all add: timeMarker_def)
  then obtain l where l: "l \<in> set ?lines" and m: "sublist timeMarker l" by blast
  have "\<not> sublist timeMarker ''<skills>''" "\<not> sublist timeMarker ''</skills>''"
    by (simp_all add: tm_scan)
  with l m obtain s where s: "s \<in> set (ListSkills fs cb)" and ls: "l \<in> set (skillLines s)"
    by auto
  from skillLines_marker [OF ls m ListSkills_Source [OF s]] s show ?thesis by blast
qed

lemma promptParts_marker:
  assumes p: "part \<in> set (promptParts fs cb)" and m: "sublist timeMarker part"
  shows "sublist timeMarker (getIdentity fs cb) \<or> sublist timeMarker (LoadBootstrapFiles fs cb)
         \<or> sublist timeMarker (BuildSkillsSummary fs cb)
         \<or> sublist timeMarker (memoryContext fs)"
proof -
  from p consider
      "part = getIdentity fs cb"
    | "part = LoadBootstrapFiles fs cb"
    | "part = ''# Skills\<newline>\<newline>The following skills extend your capabilities. To use a skill, read its SKILL.md file using the read_file tool.\<newline>\<newline>'' @ BuildSkillsSummary fs cb"
    | "part = ''# Memory\<newline>\<newline>'' @ memoryContext fs"
    by (auto simp: promptParts_def Let_def split: if_splits)
  then show ?thesis
  proof cases
    case 1
    with m show ?thesis by simp
  next
    case 2
    with m show ?thesis by simp
  next
    case 3
    with m have "sublist timeMarker (BuildSkillsSummary fs cb)" by (simp add: tm_scan)
    then show ?thesis by simp
  next
    case 4
    with m have "sublist timeMarker (memoryContext fs)" by (simp add: tm_scan)
    then show ?thesis by simp
  qed
qed

text \<open>The static prompt holds the marker only if a text taken from the environment does.\<close>

lemma marker_in_sources:
  assumes "Contains (BuildSystemPrompt fs cb) timeMarker"
  shows "list_ex (\<lambda>d. Contains d timeMarker) (promptSources fs cb)"
proof -
  from marker_in_parts [OF assms] obtain part
    where "part \<in> set (promptParts fs cb)" "sublist timeMarker part"
    by (auto simp: Contains_def)
  from promptParts_marker [OF this] show ?thesis
  proof (elim disjE)
    assume "sublist timeMarker (getIdentity fs cb)"
    then show ?thesis
      by (simp add: getIdentity_marker promptSources_def Contains_def)
  next
    assume "sublist timeMarker (LoadBootstrapFiles fs cb)"
    from LoadBootstrapFiles_marker [OF this] show ?thesis
      unfolding promptSources_def Contains_def list_ex_iff by auto
  next
    assume "sublist timeMarker (BuildSkillsSummary fs cb)"
    from BuildSkillsSummary_marker [OF this] show ?thesis
      unfolding promptSources_def Contains_def list_ex_iff by auto
  next
    assume "sublist timeMarker (memoryContext fs)"
    then show ?thesis
      by (simp add: promptSources_def Contains_def)
  qed
qed

lemma clean_prompt:
  "sourcesClean fs cb \<Longrightarrow> \<not> Contains (BuildSystemPrompt fs cb) timeMarker"
  using marker_in_sources [of fs cb]
  by (auto simp: sourcesClean_def list_all_iff list_ex_iff)

lemma builtClean_cached:
  "builtClean cb \<Longrightarrow> \<not> Contains (cachedSystemPrompt cb) timeMarker"
proof (induction rule: builtClean.induct)
  case (clean_new cb)
  then show ?case by (simp add: Contains_def tm_ne)
next
  case (clean_get cb fs)
  then show ?case by (simp add: getter_cached getter_result clean_prompt)
next
  case (clean_invalidate cb)
  then show ?case by (simp add: InvalidateCache_def Contains_def tm_ne)
qed

lemma getter_clean:
  "builtClean cb \<Longrightarrow> sourcesClean fs cb
   \<Longrightarrow> \<not> Contains (fst (BuildSystemPromptWithCache fs cb)) timeMarker"
  by (simp add: getter_result clean_prompt builtClean_cached)

lemma fsMarker_contains: "Contains (BuildSystemPrompt fsMarker cbW) timeMarker"
proof -
  have "sublist timeMarker
          (getIdentity fsMarker cbW @ promptSeparator
             @ ''## AGENTS.md\<newline>\<newline>'' @ timeMarker @ ''\<newline>is shown above.\<newline>\<newline>'')"
    by (simp only: sublist_def) (metis append.assoc)
  then show ?thesis
    by (simp add: Contains_def BuildSystemPrompt_def fsMarker_parts)
qed

lemma fsSkills_sources: "promptSources fsSkills cbW = [''/w'', '''']"
  by (simp add: promptSources_def cbW_fields filepath_Join.simps fsSkills_def fsEmpty_def
        ListSkills_def ListSkillsState_def addSkills_def)

lemma fsSkills_clean: "sourcesClean fsSkills cbW"
  by (simp add: sourcesClean_def fsSkills_sources Contains_def tm_scan)

text \<open>
  C6 (as amended). Take a sequence of calls of the cached getter in which every later
  environment agrees with the first on the watched paths: \<open>os.Stat\<close> reports the same for
  each source path, for the skills directory and for each file the walk visits below it,
  and the walk finds the same tree (so no watched path was created, deleted or touched;
  the theorem needs nothing of the rest of the environment). Every call returns the
  string the first call returns. That string is the one cached before, when the cache
  was filled and not stale, and otherwise the static prompt, to which the getter adds
  nothing. The static prompt holds the line \<open>## Current Time\<close> only if one of the texts it
  takes from the environment holds it: the absolute path of the workspace, the content of
  a bootstrap file, the name, description or path of a listed skill, or the memory
  context. The text the code writes itself (the identity, the headers, the tags of the
  summary, the separators) never makes the marker, neither alone nor together with the
  ends of those texts. So when the cache is empty or was filled by the getter from texts
  without the marker, and the texts of the first environment are without it, no string
  of the sequence contains the marker. The marker is the line the block of
  \<open>buildDynamicContext\<close> starts with.
\<close>

theorem cached_prompt_stable:
  "(list_all (sameWatched fs cb) fss \<longrightarrow>
      getPrompts (fs # fss) cb
        = replicate (Suc (length fss)) (fst (BuildSystemPromptWithCache fs cb)))
   \<and> fst (BuildSystemPromptWithCache fs cb)
        = (if cachedSystemPrompt cb \<noteq> '''' \<and> \<not> fst (sourceFilesChangedLocked fs cb)
           then cachedSystemPrompt cb else BuildSystemPrompt fs cb)
   \<and> (Contains (BuildSystemPrompt fs cb) timeMarker \<longrightarrow>
        list_ex (\<lambda>d. Contains d timeMarker) (promptSources fs cb))
   \<and> (builtClean cb \<and> sourcesClean fs cb \<and> list_all (sameWatched fs cb) fss \<longrightarrow>
        list_all (\<lambda>p. \<not> Contains p timeMarker) (getPrompts (fs # fss) cb))
   \<and> prefix timeMarker (buildDynamicContext r channel chatID)"
proof -
  have a: "list_all (sameWatched fs cb) fss \<longrightarrow>
      getPrompts (fs # fss) cb
        = replicate (Suc (length fss)) (fst (BuildSystemPromptWithCache fs cb))"
  proof
    assume "list_all (sameWatched fs cb) fss"
    then have "getPrompts fss (snd (BuildSystemPromptWithCache fs cb))
                 = replicate (length fss) (fst (BuildSystemPromptWithCache fs cb))"
      by (rule getPrompts_after_first)
    then show "getPrompts (fs # fss) cb
        = replicate (Suc (length fss)) (fst (BuildSystemPromptWithCache fs cb))"
      by (simp add: split_beta)
  qed
  have b: "fst (BuildSystemPromptWithCache fs cb)
        = (if cachedSystemPrompt cb \<noteq> '''' \<and> \<not> fst (sourceFilesChangedLocked fs cb)
           then cachedSystemPrompt cb else BuildSystemPrompt fs cb)"
    by (rule getter_result)
  have c: "Contains (BuildSystemPrompt fs cb) timeMarker \<longrightarrow>
        list_ex (\<lambda>d. Contains d timeMarker) (promptSources fs cb)"
    using marker_in_sources by blast
  have d: "builtClean cb \<and> sourcesClean fs cb \<and> list_all (sameWatched fs cb) fss \<longrightarrow>
        list_all (\<lambda>p. \<not> Contains p timeMarker) (getPrompts (fs # fss) cb)"
  proof
    assume h: "builtClean cb \<and> sourcesClean fs cb \<and> list_all (sameWatched fs cb) fss"
    then have e: "getPrompts (fs # fss) cb
        = replicate (Suc (length fss)) (fst (BuildSystemPromptWithCache fs cb))"
      using a by blast
    have "\<not> Contains (fst (BuildSystemPromptWithCache fs cb)) timeMarker"
      using h by (simp add: getter_clean)
    then show "list_all (\<lambda>p. \<not> Contains p timeMarker) (getPrompts (fs # fss) cb)"
      unfolding e by (simp add: list_all_iff)
  qed
  have e: "prefix timeMarker (buildDynamicContext r channel chatID)"
    by (simp add: buildDynamicContext_def Let_def timeMarker_def)
  from a b c d e show ?thesis by (intro conjI)
qed

theorem cached_prompt_stable_witness:
  "getPrompts
     [fsSkills,
      fsSkills\<lparr>memoryContext := ''noted later'',
               stat := (stat fsSkills)(''/home/u/.picoclaw/skills/x/SKILL.md'' \<mapsto> \<lparr>ModTime = Unix 900 0\<rparr>)\<rparr>,
      fsSkills] cbW
     = replicate 3 (fst (BuildSystemPromptWithCache fsSkills cbW))
   \<and> list_all (\<lambda>p. \<not> Contains p timeMarker)
       (getPrompts
          [fsSkills,
           fsSkills\<lparr>memoryContext := ''noted later'',
                    stat := (stat fsSkills)(''/home/u/.picoclaw/skills/x/SKILL.md'' \<mapsto> \<lparr>ModTime = Unix 900 0\<rparr>)\<rparr>,
           fsSkills] cbW)
   \<and> list_ex (\<lambda>d. Contains d timeMarker) (promptSources fsMarker cbW)"
proof -
  let ?fs2 = "fsSkills\<lparr>memoryContext := ''noted later'',
               stat := (stat fsSkills)(''/home/u/.picoclaw/skills/x/SKILL.md'' \<mapsto> \<lparr>ModTime = Unix 900 0\<rparr>)\<rparr>"
  have w: "watchedPaths fsSkills cbW =
             [''/w/AGENTS.md'', ''/w/SOUL.md'', ''/w/USER.md'', ''/w/IDENTITY.md'',
              ''/w/memory/MEMORY.md'', ''/w/skills'', ''/w/skills/a/SKILL.md'',
              ''/w/skills/b/doc.md'', ''/w/skills/b/z.md'']"
    by (simp add: watchedPaths_def skillsFiles_def sourcePaths_def ex_defs filepath_Join.simps)
  have s2: "sameWatched fsSkills cbW ?fs2"
    unfolding sameWatched_def w by simp
  have h: "list_all (sameWatched fsSkills cbW) [?fs2, fsSkills]"
    using s2 by (simp add: sameWatched_refl)
  have bc: "builtClean cbW"
    by (rule clean_new) (simp add: cbW_fields)
  note t = cached_prompt_stable [of fsSkills cbW "[?fs2, fsSkills]"]
  from t h
  have "getPrompts (fsSkills # [?fs2, fsSkills]) cbW
     = replicate (Suc (length [?fs2, fsSkills]))
         (fst (BuildSystemPromptWithCache fsSkills cbW))"
    by blast
  then have 1: "getPrompts [fsSkills, ?fs2, fsSkills] cbW
     = replicate 3 (fst (BuildSystemPromptWithCache fsSkills cbW))"
    by (simp add: numeral_3_eq_3)
  from t h bc fsSkills_clean
  have 2: "list_all (\<lambda>p. \<not> Contains p timeMarker) (getPrompts (fsSkills # [?fs2, fsSkills]) cbW)"
    by blast
  from cached_prompt_stable [of fsMarker cbW "[]"] fsMarker_contains
  have 3: "list_ex (\<lambda>d. Contains d timeMarker) (promptSources fsMarker cbW)"
    by blast
  from 1 2 3 show ?thesis by (intro conjI)
qed

text \<open>
  The claim as first stated ("that string never contains the dynamic time marker") fails
  for a workspace whose \<open>AGENTS.md\<close> holds the line \<open>## Current Time\<close>: three calls with
  no change in between return the same string, and the string contains the marker.
\<close>

theorem cached_prompt_marker_counterexample:
  "getPrompts [fsMarker, fsMarker, fsMarker] cbW
     = [BuildSystemPrompt fsMarker cbW, BuildSystemPrompt fsMarker cbW,
        BuildSystemPrompt fsMarker cbW]
   \<and> Contains (BuildSystemPrompt fsMarker cbW) timeMarker
   \<and> timeMarker = ''## Current Time''"
proof -
  have f: "fst (BuildSystemPromptWithCache fsMarker cbW) = BuildSystemPrompt fsMarker cbW"
    by (simp add: getter_result cbW_fields)
  have "getPrompts [fsMarker, fsMarker] (snd (BuildSystemPromptWithCache fsMarker cbW))
          = replicate (length [fsMarker, fsMarker]) (fst (BuildSystemPromptWithCache fsMarker cbW))"
    by (rule getPrompts_after_first) (simp add: sameWatched_refl)
  then have g: "getPrompts [fsMarker, fsMarker, fsMarker] cbW
     = [BuildSystemPrompt fsMarker cbW, BuildSystemPrompt fsMarker cbW,
        BuildSystemPrompt fsMarker cbW]"
    using f by (simp add: split_beta numeral_2_eq_2)
  from g fsMarker_contains show ?thesis by (simp add: timeMarker_def)
qed


text \<open>
  C7. \<open>InvalidateCache\<close> sets the cached prompt to the empty string, \<open>cachedAt\<close> to the
  zero time and the existence map to nil, whatever they were, and leaves the configuration
  as it is; it takes no environment, so it reads and changes no file. When the builder was
  reached by calls of the getter and of \<open>InvalidateCache\<close> in an unchanged environment
  and holds a cached prompt, the getter called after \<open>InvalidateCache\<close> returns that
  cached prompt again.
\<close>

theorem InvalidateCache_resets:
  "cachedSystemPrompt (InvalidateCache cb) = ''''
   \<and> cachedAt (InvalidateCache cb) = zeroTime
   \<and> IsZero (cachedAt (InvalidateCache cb))
   \<and> existedAtCache (InvalidateCache cb) = None
   \<and> sameConfig cb (InvalidateCache cb)
   \<and> (reachable fs cb \<and> cachedSystemPrompt cb \<noteq> '''' \<longrightarrow>
        fst (BuildSystemPromptWithCache fs (InvalidateCache cb)) = cachedSystemPrompt cb)"
proof -
  have cfg: "sameConfig cb (InvalidateCache cb)"
    by (simp add: InvalidateCache_def sameConfig_def)
  have e: "cachedSystemPrompt (InvalidateCache cb) = ''''"
    by (simp add: InvalidateCache_def)
  have r: "fst (BuildSystemPromptWithCache fs (InvalidateCache cb)) = BuildSystemPrompt fs cb"
    by (simp add: getter_result e BuildSystemPrompt_config [OF cfg])
  have g: "reachable fs cb \<and> cachedSystemPrompt cb \<noteq> '''' \<longrightarrow>
        fst (BuildSystemPromptWithCache fs (InvalidateCache cb)) = cachedSystemPrompt cb"
    using reachable_cached [of fs cb] r by auto
  have z: "cachedAt (InvalidateCache cb) = zeroTime" "existedAtCache (InvalidateCache cb) = None"
    by (simp_all add: InvalidateCache_def)
  from e z cfg g show ?thesis by (simp add: IsZero_def)
qed

theorem InvalidateCache_resets_witness:
  "fst (BuildSystemPromptWithCache fsMarker
          (InvalidateCache (snd (BuildSystemPromptWithCache fsMarker cbW))))
     = fst (BuildSystemPromptWithCache fsMarker cbW)
   \<and> cachedSystemPrompt (InvalidateCache cbCached) = ''''
   \<and> cachedAt (InvalidateCache cbCached) = zeroTime
   \<and> existedAtCache (InvalidateCache cbCached) = None"
proof -
  let ?cb1 = "snd (BuildSystemPromptWithCache fsMarker cbW)"
  have "reachable fsMarker cbW"
    by (rule reach_new) (simp add: cbW_fields)
  then have r: "reachable fsMarker ?cb1" by (rule reach_get)
  have n: "cachedSystemPrompt ?cb1 \<noteq> ''''"
    by (simp add: getter_cached getter_nonempty)
  from InvalidateCache_resets [of ?cb1 fsMarker] r n
  have "fst (BuildSystemPromptWithCache fsMarker (InvalidateCache ?cb1)) = cachedSystemPrompt ?cb1"
    by blast
  then have a: "fst (BuildSystemPromptWithCache fsMarker (InvalidateCache ?cb1))
                  = fst (BuildSystemPromptWithCache fsMarker cbW)"
    by (simp add: getter_cached)
  from InvalidateCache_resets [of cbCached fsMarker]
  have b: "cachedSystemPrompt (InvalidateCache cbCached) = ''''
   \<and> cachedAt (InvalidateCache cbCached) = zeroTime
   \<and> existedAtCache (InvalidateCache cbCached) = None"
    by blast
  from a b show ?thesis by simp
qed

end

